theory Spec2Isabelle
  imports Main "HOL-Library.Word" "HOL-Library.Signed_Division"
begin

unbundle bit_operations_syntax

section \<open>Machine integers and Go's time values\<close>

text \<open>
  Go's \<^verbatim>\<open>int64\<close> and \<^verbatim>\<open>byte\<close> are words; \<open>+\<close>, \<open>-\<close>, \<open>*\<close> and the left shift
  wrap around as they do in Go. Go's \<^verbatim>\<open>int\<close> is taken to be 64 bits wide (the
  common platforms). Go's \<^verbatim>\<open>/\<close> and \<^verbatim>\<open>%\<close> truncate towards zero.
\<close>

type_synonym int64 = "64 word"
type_synonym byte = "8 word"

definition int64_quo :: "int64 \<Rightarrow> int64 \<Rightarrow> int64" where
  "int64_quo a b = word_of_int (sint a sdiv sint b)"

definition int64_rem :: "int64 \<Rightarrow> int64 \<Rightarrow> int64" where
  "int64_rem a b = word_of_int (sint a smod sint b)"

text \<open>
  A \<^verbatim>\<open>time.Time\<close> of the standard library, as the instant it denotes: seconds since
  the Unix epoch and nanoseconds within the second. The monotonic clock reading and the
  location that a Go value also carries are not part of the instant and are not modelled.
\<close>

record Time =
  unix_sec :: int
  unix_nsec :: int

definition wf_Time :: "Time \<Rightarrow> bool" where
  "wf_Time t \<longleftrightarrow> 0 \<le> unix_nsec t \<and> unix_nsec t < 1000000000"

text \<open>\<^verbatim>\<open>t.UnixNano()\<close>: computed in \<^verbatim>\<open>int64\<close>, so it wraps when the instant lies
  outside the years 1678 to 2262.\<close>

definition UnixNano :: "Time \<Rightarrow> int64" where
  "UnixNano t = word_of_int (unix_sec t * 1000000000 + unix_nsec t)"

text \<open>\<^verbatim>\<open>time.Unix(sec, nsec)\<close>, which brings \<^verbatim>\<open>nsec\<close> into the range [0, 1e9).\<close>

definition Unix :: "int64 \<Rightarrow> int64 \<Rightarrow> Time" where
  "Unix sec nsec =
     (if nsec <s 0 \<or> 1000000000 \<le>s nsec then
        (let n = int64_quo nsec 1000000000;
             sec' = sec + n;
             nsec' = nsec - n * 1000000000
         in if nsec' <s 0
            then \<lparr>unix_sec = sint (sec' - 1), unix_nsec = sint (nsec' + 1000000000)\<rparr>
            else \<lparr>unix_sec = sint sec', unix_nsec = sint nsec'\<rparr>)
      else \<lparr>unix_sec = sint sec, unix_nsec = sint nsec\<rparr>)"

section \<open>Wire codec: the timestamp payload\<close>

datatype panic = IndexOutOfRange nat nat | NilDereference

text \<open>The loop of \<^verbatim>\<open>timeToBytes\<close>: \<^verbatim>\<open>bytes[i] = byte(0xff & (nsecs >> ((7 - i) * 8)))\<close>
  for \<^verbatim>\<open>i\<close> from 0 to 7, on a slice made with 8 elements.\<close>

function timeToBytes_loop :: "int64 \<Rightarrow> nat \<Rightarrow> byte list \<Rightarrow> byte list" where
  "timeToBytes_loop nsecs i bytes =
     (if i < 8
      then timeToBytes_loop nsecs (i + 1)
             (bytes[i := ucast (0xff AND signed_drop_bit ((7 - i) * 8) nsecs)])
      else bytes)"
  by pat_completeness auto
termination
  by (relation "measure (\<lambda>(nsecs, i, bytes). 8 - i)") auto

definition timeToBytes :: "Time \<Rightarrow> byte list" where
  "timeToBytes t = timeToBytes_loop (UnixNano t) 0 (replicate 8 0)"

text \<open>The loop of \<^verbatim>\<open>bytesToTime\<close>: \<^verbatim>\<open>nsecs += int64(bytes[i]) << ((7 - i) * 8)\<close>.
  Indexing a slice beyond its length panics in Go.\<close>

function bytesToTime_loop :: "byte list \<Rightarrow> nat \<Rightarrow> int64 \<Rightarrow> panic + int64" where
  "bytesToTime_loop bytes i nsecs =
     (if i < 8
      then (if i < length bytes
            then bytesToTime_loop bytes (i + 1)
                   (nsecs + push_bit ((7 - i) * 8) (ucast (bytes ! i)))
            else Inl (IndexOutOfRange i (length bytes)))
      else Inr nsecs)"
  by pat_completeness auto
termination
  by (relation "measure (\<lambda>(bytes, i, nsecs). 8 - i)") auto

definition bytesToTime :: "byte list \<Rightarrow> panic + Time" where
  "bytesToTime bytes =
     (case bytesToTime_loop bytes 0 0 of
        Inl e \<Rightarrow> Inl e
      | Inr nsecs \<Rightarrow> Inr (Unix (int64_quo nsecs 1000000000) (int64_rem nsecs 1000000000)))"

section \<open>Standard-library and x/net values the session uses\<close>

text \<open>\<^verbatim>\<open>t.Sub(u)\<close> and \<^verbatim>\<open>time.Since\<close>: the difference in nanoseconds, saturated
  at the ends of \<^verbatim>\<open>int64\<close>. \<^verbatim>\<open>d.Milliseconds()\<close> is \<^verbatim>\<open>int64(d) / 1e6\<close>.\<close>

definition Sub :: "Time \<Rightarrow> Time \<Rightarrow> int64" where
  "Sub t u =
     (let d = (unix_sec t - unix_sec u) * 1000000000 + (unix_nsec t - unix_nsec u)
      in if d < - 9223372036854775808 then word_of_int (- 9223372036854775808)
         else if 9223372036854775807 < d then word_of_int 9223372036854775807
         else word_of_int d)"

definition Since :: "Time \<Rightarrow> Time \<Rightarrow> int64" where
  "Since now t = Sub now t"

definition Milliseconds :: "int64 \<Rightarrow> int64" where
  "Milliseconds d = int64_quo d 1000000"

text \<open>ICMP message types of \<^verbatim>\<open>ipv4\<close> and \<^verbatim>\<open>ipv6\<close>, with their protocol numbers.\<close>

datatype icmp_type = ICMPv4 nat | ICMPv6 nat

definition ipv4_ICMPTypeEchoReply :: icmp_type where "ipv4_ICMPTypeEchoReply = ICMPv4 0"
definition ipv4_ICMPTypeEcho :: icmp_type where "ipv4_ICMPTypeEcho = ICMPv4 8"
definition ipv4_ICMPTypeTimeExceeded :: icmp_type where "ipv4_ICMPTypeTimeExceeded = ICMPv4 11"
definition ipv6_ICMPTypeTimeExceeded :: icmp_type where "ipv6_ICMPTypeTimeExceeded = ICMPv6 3"
definition ipv6_ICMPTypeEchoRequest :: icmp_type where "ipv6_ICMPTypeEchoRequest = ICMPv6 128"
definition ipv6_ICMPTypeEchoReply :: icmp_type where "ipv6_ICMPTypeEchoReply = ICMPv6 129"

fun Protocol :: "icmp_type \<Rightarrow> nat" where
  "Protocol (ICMPv4 _) = 1"
| "Protocol (ICMPv6 _) = 58"

text \<open>An \<^verbatim>\<open>icmp.Message\<close>: its type, code and body; \<^verbatim>\<open>*icmp.Echo\<close> is the one
  body the program looks into.\<close>

datatype message_body = Echo (ID: int64) (Seq: int64) (Data: "byte list") | OtherBody

record Message =
  Type :: icmp_type
  Code :: int64
  Body :: message_body

text \<open>\<^verbatim>\<open>icmp.ParseMessage\<close> is a function of x/net: the session functions take it as
  the parameter \<open>parse\<close>, from protocol number and buffer to an error text or a message.\<close>

type_synonym parser = "nat \<Rightarrow> byte list \<Rightarrow> string + Message"

record IPAddr =
  IP :: string
  Zone :: string

text \<open>One read of the connection: it fails with an error text, or fills the buffer and
  (in the dual-stack program) may carry a control message with the TTL or hop limit.\<close>

datatype read_result = ReadErr string | ReadOk "byte list" "int64 option"

text \<open>What the program does to the outside, in order: the arguments of
  \<^verbatim>\<open>fmt.Printf\<close>, \<^verbatim>\<open>fmt.Println\<close> of an error, the message handed to
  \<^verbatim>\<open>Marshal\<close> and \<^verbatim>\<open>WriteTo\<close>, the timer calls, the sleep, and the start of
  the receiver goroutine.\<close>

datatype arg = ArgS string | ArgD int64 | ArgV int64

datatype action =
    Printf string "arg list"
  | Println string
  | WriteTo Message IPAddr
  | NewTimer int64
  | TimerStop
  | TimerReset int64
  | Sleep int64
  | Go_recvEchoReply

section \<open>The ping session\<close>

text \<open>
  The repository holds the program twice. The functions of the dual-stack program
  (flags \<^verbatim>\<open>-t\<close> and \<^verbatim>\<open>-6\<close>) keep their names; those of the IPv4-only
  \<^verbatim>\<open>main.go\<close> carry the suffix \<open>_v4\<close>. \<^verbatim>\<open>PingProc\<close> of the dual-stack program
  has the fields of the IPv4-only one and two more. The field \<^verbatim>\<open>id\<close> is \<open>ident\<close>
  here. An \<^verbatim>\<open>error\<close> is its text, \<open>None\<close> is \<^verbatim>\<open>nil\<close>.
\<close>

record PingProc_v4 =
  ident :: int64
  seqnum :: int64
  dst :: IPAddr
  rttLimit :: int64
  interval :: int64

record PingProc = PingProc_v4 +
  isIPv6 :: bool
  ttl :: int64

text \<open>\<^verbatim>\<open>newPingProc\<close>; \<open>r1\<close> and \<open>r2\<close> are the two results of
  \<^verbatim>\<open>rand.Intn(1 << 16)\<close>, each below 65536.\<close>

definition newPingProc :: "nat \<Rightarrow> nat \<Rightarrow> IPAddr \<Rightarrow> bool \<Rightarrow> int64 \<Rightarrow> PingProc" where
  "newPingProc r1 r2 dstIP isIPv6' ttl' =
     \<lparr>ident = of_nat r1, seqnum = of_nat r2, dst = dstIP,
      rttLimit = 2 * 1000000000, interval = 1000000000,
      isIPv6 = isIPv6', ttl = ttl'\<rparr>"

definition newPingProc_v4 :: "nat \<Rightarrow> nat \<Rightarrow> IPAddr \<Rightarrow> PingProc_v4" where
  "newPingProc_v4 r1 r2 dstIP =
     \<lparr>ident = of_nat r1, seqnum = of_nat r2, dst = dstIP,
      rttLimit = 2000 * 1000000, interval = 1300 * 1000000\<rparr>"

text \<open>\<^verbatim>\<open>sendEcho\<close>: \<open>now\<close> is the clock reading, \<open>werr\<close> the error of
  \<^verbatim>\<open>cn.WriteTo\<close>. The result is the session, what was done, and the error returned.\<close>

definition sendEcho :: "PingProc \<Rightarrow> Time \<Rightarrow> string option \<Rightarrow> PingProc \<times> action list \<times> string option" where
  "sendEcho p now werr =
     (let msgType = (if \<not> isIPv6 p then ipv4_ICMPTypeEcho else ipv6_ICMPTypeEchoRequest);
          p' = p\<lparr>seqnum := seqnum p + 1\<rparr>;
          t = timeToBytes now;
          m = \<lparr>Type = msgType, Code = 0, Body = Echo (ident p') (seqnum p') t\<rparr>
      in (p', [WriteTo m (dst p')],
          (case werr of Some err \<Rightarrow> Some (''Send echo error: '' @ err) | None \<Rightarrow> None)))"

definition sendEcho_v4 :: "PingProc_v4 \<Rightarrow> Time \<Rightarrow> string option \<Rightarrow> PingProc_v4 \<times> action list \<times> string option" where
  "sendEcho_v4 p now werr =
     (let msgType = ipv4_ICMPTypeEcho;
          t = timeToBytes now;
          m = \<lparr>Type = msgType, Code = 0, Body = Echo (ident p) (seqnum p) t\<rparr>
      in (p, [WriteTo m (dst p)],
          (case werr of Some err \<Rightarrow> Some (''Send echo error: '' @ err) | None \<Rightarrow> None)))"

record recvResult =
  msg :: "Message option"
  rttl :: int64
  err :: "string option"

record recvResult_v4 =
  bytes_v4 :: "byte list"
  err_v4 :: "string option"

text \<open>\<^verbatim>\<open>recvEchoReply\<close>, the receiver goroutine, on the reads the connection will
  answer: the values it sends on the channel, in order, and whether it has returned
  (\<open>True\<close>) or is blocked in a read (\<open>False\<close>). Its log lines are left out.\<close>

fun recvEchoReply :: "PingProc \<Rightarrow> parser \<Rightarrow> read_result list \<Rightarrow> recvResult list \<times> bool" where
  "recvEchoReply p parse [] = ([], False)"
| "recvEchoReply p parse (ReadErr e # reads) =
     ([\<lparr>msg = None, rttl = - 1, err = Some (''Send echo error: '' @ e)\<rparr>], True)"
| "recvEchoReply p parse (ReadOk bytes cm # reads) =
     (let ttl' = (case cm of Some h \<Rightarrow> h | None \<Rightarrow> 0);
          protoNum = (if isIPv6 p then Protocol ipv6_ICMPTypeEchoReply
                      else Protocol ipv4_ICMPTypeEchoReply)
      in case parse protoNum bytes of
           Inl e \<Rightarrow> ([\<lparr>msg = None, rttl = - 1, err = Some (''Send echo error: '' @ e)\<rparr>], True)
         | Inr m \<Rightarrow>
             (case recvEchoReply p parse reads of
                (rs, stopped) \<Rightarrow> (\<lparr>msg = Some m, rttl = ttl', err = None\<rparr> # rs, stopped)))"

definition protoNum_v4 :: nat where
  "protoNum_v4 = 1"

fun recvEchoReply_v4 :: "parser \<Rightarrow> read_result list \<Rightarrow> recvResult_v4 list \<times> bool" where
  "recvEchoReply_v4 parse [] = ([], False)"
| "recvEchoReply_v4 parse (ReadErr e # reads) =
     ([\<lparr>bytes_v4 = [], err_v4 = Some (''Send echo error: '' @ e)\<rparr>], True)"
| "recvEchoReply_v4 parse (ReadOk bytes cm # reads) =
     (case parse protoNum_v4 bytes of
        Inl e \<Rightarrow> ([\<lparr>bytes_v4 = [], err_v4 = Some (''Send echo error: '' @ e)\<rparr>], True)
      | Inr m \<Rightarrow>
          (case recvEchoReply_v4 parse reads of
             (rs, stopped) \<Rightarrow>
               ((if Type m = ipv4_ICMPTypeEchoReply
                 then \<lparr>bytes_v4 = bytes, err_v4 = None\<rparr>
                 else \<lparr>bytes_v4 = [],
                       err_v4 = Some ''Send echo error: not echo reply message type''\<rparr>) # rs,
                stopped)))"

text \<open>The handlers. \<open>now\<close> is the clock reading of \<^verbatim>\<open>time.Since\<close>; a panic of
  \<^verbatim>\<open>bytesToTime\<close> leaves the handler.\<close>

definition handleEchoReply :: "PingProc \<Rightarrow> Message \<Rightarrow> int64 \<Rightarrow> Time \<Rightarrow> panic + action list" where
  "handleEchoReply p m ttl' now =
     (case (case Body m of
              Echo bid bseq bdata \<Rightarrow>
                (if bid = ident p \<and> bseq = seqnum p
                 then (case bytesToTime bdata of Inl e \<Rightarrow> Inl e | Inr t \<Rightarrow> Inr (Since now t))
                 else Inr 0)
            | OtherBody \<Rightarrow> Inr 0) of
        Inl e \<Rightarrow> Inl e
      | Inr rtt \<Rightarrow>
          Inr [Printf ''64 bytes from %s: icmp_seq=%d ttl=%d time=%dms\<newline>''
                 [ArgS (IP (dst p)), ArgD (seqnum p), ArgD ttl', ArgD (Milliseconds rtt)]])"

definition handleTimeExceeded :: "PingProc \<Rightarrow> action list" where
  "handleTimeExceeded p =
     [Printf ''From %s: icmp_seq=%d Time exceeded: Hop limit\<newline>''
        [ArgS (IP (dst p)), ArgD (seqnum p)]]"

definition handleMsg :: "PingProc \<Rightarrow> Message \<Rightarrow> int64 \<Rightarrow> Time \<Rightarrow> panic + action list" where
  "handleMsg p m ttl' now =
     (if Type m = ipv4_ICMPTypeEchoReply \<or> Type m = ipv6_ICMPTypeEchoReply
      then handleEchoReply p m ttl' now
      else if Type m = ipv4_ICMPTypeTimeExceeded \<or> Type m = ipv6_ICMPTypeTimeExceeded
      then Inr (handleTimeExceeded p)
      else Inr [Printf ''Unexpected message type received.'' []])"

definition handleRecv_v4 :: "parser \<Rightarrow> PingProc_v4 \<Rightarrow> byte list \<Rightarrow> Time \<Rightarrow> panic + action list" where
  "handleRecv_v4 parse p bytes now =
     (case parse protoNum_v4 bytes of
        Inl e \<Rightarrow> Inr [Printf ''Handle receive error: %s'' [ArgS e]]
      | Inr m \<Rightarrow>
          (case Body m of
             Echo bid bseq bdata \<Rightarrow>
               (case (if bid = ident p \<and> bseq = seqnum p
                      then (case bytesToTime bdata of Inl e \<Rightarrow> Inl e | Inr t \<Rightarrow> Inr (Since now t))
                      else Inr 0) of
                  Inl e \<Rightarrow> Inl e
                | Inr rtt \<Rightarrow>
                    Inr [Printf ''64 bytes from %s: time=%v\<newline>'' [ArgS (IP (dst p)), ArgV rtt]])
           | OtherBody \<Rightarrow> Inr []))"

section \<open>The control loop\<close>

text \<open>
  What one pass of the \<^verbatim>\<open>for\<close> loop of \<^verbatim>\<open>pingLoop\<close> takes from outside:
  whether the channel delivers before the timer fires (it can only when the receiver has
  a value to send), the clock reading of the handler, the clock reading of
  \<^verbatim>\<open>sendEcho\<close>, and the error of its \<^verbatim>\<open>WriteTo\<close>.
\<close>

record loop_in =
  msg_first :: bool
  recv_now :: Time
  send_now :: Time
  write_err :: "string option"

text \<open>The loop has no exit but the \<^verbatim>\<open>break\<close>: on a finite list of passes it is
  still waiting in \<^verbatim>\<open>select\<close> at the end, unless it returned or panicked before.\<close>

datatype outcome = Waiting | Returned "string option" | Panicked panic

text \<open>The \<^verbatim>\<open>select\<close>: \<open>None\<close> is the timer case, \<open>Some res\<close> the channel case;
  \<open>ch\<close> holds the values the receiver has still to send.\<close>

definition select_arm :: "bool \<Rightarrow> 'r list \<Rightarrow> 'r option \<times> 'r list" where
  "select_arm first ch =
     (case ch of
        [] \<Rightarrow> (None, [])
      | r # ch' \<Rightarrow> (if first then (Some r, ch') else (None, ch)))"

definition select_body :: "PingProc \<Rightarrow> recvResult option \<Rightarrow> Time \<Rightarrow> panic + action list" where
  "select_body p sel now =
     (case sel of
        None \<Rightarrow> Inr [Printf ''unreachable: %s.\<newline>'' [ArgS (IP (dst p))]]
      | Some res \<Rightarrow>
          (case (case err res of
                   None \<Rightarrow>
                     (case msg res of
                        None \<Rightarrow> Inl NilDereference
                      | Some m \<Rightarrow> handleMsg p m (rttl res) now)
                 | Some e \<Rightarrow> Inr [Printf ''Error during message receiving: %s.\<newline>'' [ArgS e]]) of
             Inl e \<Rightarrow> Inl e
           | Inr acts \<Rightarrow> Inr (acts @ [TimerStop, Sleep (interval p)])))"

fun pingLoop_for :: "PingProc \<Rightarrow> recvResult list \<Rightarrow> loop_in list \<Rightarrow> PingProc \<times> action list \<times> outcome" where
  "pingLoop_for p ch [] = (p, [], Waiting)"
| "pingLoop_for p ch (i # ins) =
     (case select_arm (msg_first i) ch of
        (sel, ch') \<Rightarrow>
          (case select_body p sel (recv_now i) of
             Inl e \<Rightarrow> (p, [], Panicked e)
           | Inr acts \<Rightarrow>
               (case sendEcho p (send_now i) (write_err i) of
                  (p', sent, serr) \<Rightarrow>
                    (case serr of
                       Some e \<Rightarrow>
                         (p', acts @ [TimerReset (rttLimit p)] @ sent
                                @ [Printf ''Send error: %s.\<newline>'' [ArgS e], TimerStop],
                          Returned None)
                     | None \<Rightarrow>
                         (case pingLoop_for p' ch' ins of
                            (p'', tr, out) \<Rightarrow>
                              (p'', acts @ [TimerReset (rttLimit p)] @ sent @ tr, out))))))"

text \<open>\<^verbatim>\<open>pingLoop\<close>: the receiver is started on the reads \<open>reads\<close>, the first request
  is sent at \<open>now0\<close> with write error \<open>werr0\<close>, then the loop runs on \<open>ins\<close>.\<close>

definition pingLoop :: "PingProc \<Rightarrow> parser \<Rightarrow> read_result list \<Rightarrow> Time \<Rightarrow> string option \<Rightarrow> loop_in list
    \<Rightarrow> PingProc \<times> action list \<times> outcome" where
  "pingLoop p parse reads now0 werr0 ins =
     (case sendEcho p now0 werr0 of
        (p1, sent, _) \<Rightarrow>
          (case pingLoop_for p1 (fst (recvEchoReply p parse reads)) ins of
             (p', tr, out) \<Rightarrow> (p', Go_recvEchoReply # sent @ [NewTimer (rttLimit p)] @ tr, out)))"

definition select_body_v4 :: "parser \<Rightarrow> PingProc_v4 \<Rightarrow> recvResult_v4 option \<Rightarrow> Time
    \<Rightarrow> panic + PingProc_v4 \<times> action list" where
  "select_body_v4 parse p sel now =
     (case sel of
        None \<Rightarrow>
          Inr (p\<lparr>seqnum := seqnum p + 1\<rparr>, [Printf ''unreachable: %s.\<newline>'' [ArgS (IP (dst p))]])
      | Some res \<Rightarrow>
          (case handleRecv_v4 parse p (bytes_v4 res) now of
             Inl e \<Rightarrow> Inl e
           | Inr acts \<Rightarrow> Inr (p, acts @ [TimerStop, Sleep (interval p)])))"

fun pingLoop_for_v4 :: "parser \<Rightarrow> PingProc_v4 \<Rightarrow> recvResult_v4 list \<Rightarrow> loop_in list
    \<Rightarrow> PingProc_v4 \<times> action list \<times> outcome" where
  "pingLoop_for_v4 parse p ch [] = (p, [], Waiting)"
| "pingLoop_for_v4 parse p ch (i # ins) =
     (case select_arm (msg_first i) ch of
        (sel, ch') \<Rightarrow>
          (case select_body_v4 parse p sel (recv_now i) of
             Inl e \<Rightarrow> (p, [], Panicked e)
           | Inr (p1, acts) \<Rightarrow>
               (case sendEcho_v4 p1 (send_now i) (write_err i) of
                  (p', sent, serr) \<Rightarrow>
                    (case serr of
                       Some e \<Rightarrow>
                         (p', acts @ [TimerReset (rttLimit p1)] @ sent @ [TimerStop], Returned None)
                     | None \<Rightarrow>
                         (case pingLoop_for_v4 parse p' ch' ins of
                            (p'', tr, out) \<Rightarrow>
                              (p'', acts @ [TimerReset (rttLimit p1)] @ sent @ tr, out))))))"

definition pingLoop_v4 :: "PingProc_v4 \<Rightarrow> parser \<Rightarrow> read_result list \<Rightarrow> Time \<Rightarrow> string option \<Rightarrow> loop_in list
    \<Rightarrow> PingProc_v4 \<times> action list \<times> outcome" where
  "pingLoop_v4 p parse reads now0 werr0 ins =
     (case sendEcho_v4 p now0 werr0 of
        (p1, sent, _) \<Rightarrow>
          (case pingLoop_for_v4 parse p1 (fst (recvEchoReply_v4 parse reads)) ins of
             (p', tr, out) \<Rightarrow> (p', Go_recvEchoReply # sent @ [NewTimer (rttLimit p)] @ tr, out)))"

section \<open>The process\<close>

text \<open>\<^verbatim>\<open>main\<close> from the return of \<^verbatim>\<open>parseArgs\<close> on: \<open>resolved\<close> is the result of
  \<^verbatim>\<open>net.ResolveIPAddr\<close>, \<open>listened\<close> the error of \<^verbatim>\<open>icmp.ListenPacket\<close>. A
  \<^verbatim>\<open>main\<close> that returns ends the process with status 0, \<^verbatim>\<open>os.Exit(1)\<close> with 1.\<close>

datatype process_end = Exited nat | Crashed panic | StillRunning

definition printSetup :: "string \<Rightarrow> bool \<Rightarrow> int64 \<Rightarrow> action list" where
  "printSetup host isIPv6' ttl' =
     (let ipVersionStr = (if isIPv6' then ''IPv6'' else ''IPv4'')
      in [Printf ''PING %s, IP version: %s, ttl: %d.\<newline>'' [ArgS host, ArgS ipVersionStr, ArgD ttl']])"

definition main :: "string \<Rightarrow> bool \<Rightarrow> int64 \<Rightarrow> string + IPAddr \<Rightarrow> string option \<Rightarrow> nat \<Rightarrow> nat
    \<Rightarrow> parser \<Rightarrow> read_result list \<Rightarrow> Time \<Rightarrow> string option \<Rightarrow> loop_in list
    \<Rightarrow> action list \<times> process_end" where
  "main host flag6 ttl' resolved listened r1 r2 parse reads now0 werr0 ins =
     (let isIPv6' = (flag6 \<or> CHR '':'' \<in> set host);
          setup = printSetup host isIPv6' ttl'
      in case resolved of
           Inl e \<Rightarrow> (setup @ [Printf ''Address resolving error: %s.\<newline>'' [ArgS e]], Exited 1)
         | Inr res \<Rightarrow>
             (let p = newPingProc r1 r2 \<lparr>IP = IP res, Zone = Zone res\<rparr> isIPv6' ttl'
              in case listened of
                   Some e \<Rightarrow>
                     (setup @ [Printf ''Opening connection error: %s.\<newline>'' [ArgS e]], Exited 1)
                 | None \<Rightarrow>
                     (case pingLoop p parse reads now0 werr0 ins of
                        (p', tr, Returned None) \<Rightarrow> (setup @ tr, Exited 0)
                      | (p', tr, Returned (Some e)) \<Rightarrow> (setup @ tr @ [Println e], Exited 1)
                      | (p', tr, Panicked e) \<Rightarrow> (setup @ tr, Crashed e)
                      | (p', tr, Waiting) \<Rightarrow> (setup @ tr, StillRunning))))"

definition main_v4 :: "string + IPAddr \<Rightarrow> string option \<Rightarrow> nat \<Rightarrow> nat
    \<Rightarrow> parser \<Rightarrow> read_result list \<Rightarrow> Time \<Rightarrow> string option \<Rightarrow> loop_in list
    \<Rightarrow> action list \<times> process_end" where
  "main_v4 resolved listened r1 r2 parse reads now0 werr0 ins =
     (case resolved of
        Inl e \<Rightarrow> ([Printf ''Address resolving error: %s.\<newline>'' [ArgS e]], Exited 1)
      | Inr res \<Rightarrow>
          (let p = newPingProc_v4 r1 r2 \<lparr>IP = IP res, Zone = Zone res\<rparr>
           in case listened of
                Some e \<Rightarrow> ([Printf ''Opening connection error: %s.\<newline>'' [ArgS e]], Exited 1)
              | None \<Rightarrow>
                  (case pingLoop_v4 p parse reads now0 werr0 ins of
                     (p', tr, Returned None) \<Rightarrow> (tr, Exited 0)
                   | (p', tr, Returned (Some e)) \<Rightarrow> (tr @ [Println e], Exited 1)
                   | (p', tr, Panicked e) \<Rightarrow> (tr, Crashed e)
                   | (p', tr, Waiting) \<Rightarrow> (tr, StillRunning))))"

section \<open>Rendering of the report lines\<close>

text \<open>\<^verbatim>\<open>fmt\<close>'s rendering of the verbs \<^verbatim>\<open>%s\<close> on a string and \<^verbatim>\<open>%d\<close> on an
  \<^verbatim>\<open>int\<close>; any other verb or a verb that does not meet its argument is \<open>None\<close>.\<close>

function digits :: "nat \<Rightarrow> string" where
  "digits n = (if n < 10 then [char_of (48 + n)] else digits (n div 10) @ [char_of (48 + n mod 10)])"
  by pat_completeness auto
termination
  by (relation "measure (\<lambda>n. n)") auto

definition showInt :: "int \<Rightarrow> string" where
  "showInt i = (if i < 0 then CHR ''-'' # digits (nat (- i)) else digits (nat i))"

fun sprintf :: "string \<Rightarrow> arg list \<Rightarrow> string option" where
  "sprintf [] args = (if args = [] then Some [] else None)"
| "sprintf [c] args = (if c = CHR ''%'' \<or> args \<noteq> [] then None else Some [c])"
| "sprintf (c # v # fmt) args =
     (if c = CHR ''%'' then
        (case args of
           [] \<Rightarrow> None
         | ArgS s # args' \<Rightarrow>
             (if v = CHR ''s'' then map_option ((@) s) (sprintf fmt args') else None)
         | ArgD n # args' \<Rightarrow>
             (if v = CHR ''d'' then map_option ((@) (showInt (sint n))) (sprintf fmt args') else None)
         | ArgV d # args' \<Rightarrow> None)
      else map_option ((#) c) (sprintf (v # fmt) args))"

text \<open>How many requests a run handed to \<^verbatim>\<open>WriteTo\<close>, and how many of its passes took
  the timer case.\<close>

fun is_WriteTo :: "action \<Rightarrow> bool" where
  "is_WriteTo (WriteTo m a) = True"
| "is_WriteTo _ = False"

definition sends :: "action list \<Rightarrow> nat" where
  "sends tr = length (filter is_WriteTo tr)"

fun is_unreachable :: "action \<Rightarrow> bool" where
  "is_unreachable (Printf f as) = (f = ''unreachable: %s.\<newline>'')"
| "is_unreachable _ = False"

definition timeouts :: "action list \<Rightarrow> nat" where
  "timeouts tr = length (filter is_unreachable tr)"

fun is_Printf :: "action \<Rightarrow> bool" where
  "is_Printf (Printf f as) = True"
| "is_Printf _ = False"

text \<open>The sequence numbers carried by the requests of a run, in order; and the numbers
  they would carry if the counter started at \<open>s\<close> and went up by one at every request
  before it is built (\<open>counted_per_send\<close>), or by one at every report of an unreachable
  destination (\<open>counted_per_timeout\<close>).\<close>

fun request_seqs :: "action list \<Rightarrow> int64 list" where
  "request_seqs [] = []"
| "request_seqs (WriteTo m a # tr) =
     (case Body m of Echo i s d \<Rightarrow> s # request_seqs tr | OtherBody \<Rightarrow> request_seqs tr)"
| "request_seqs (_ # tr) = request_seqs tr"

fun counted_per_send :: "int64 \<Rightarrow> action list \<Rightarrow> int64 list" where
  "counted_per_send s [] = []"
| "counted_per_send s (a # tr) =
     (if is_WriteTo a then (s + 1) # counted_per_send (s + 1) tr else counted_per_send s tr)"

fun counted_per_timeout :: "int64 \<Rightarrow> action list \<Rightarrow> int64 list" where
  "counted_per_timeout s [] = []"
| "counted_per_timeout s (a # tr) =
     (if is_unreachable a then counted_per_timeout (s + 1) tr
      else if is_WriteTo a then s # counted_per_timeout s tr
      else counted_per_timeout s tr)"

section \<open>Inputs of the worked runs\<close>

text \<open>A session towards 192.0.2.1 with identifier 5; a request time, the time 50 ms later
  at which a reply is handled, and the time of the next request; a reply carrying the
  request time; one pass of the loop; a parser that answers one message.\<close>

abbreviation ex_dst :: IPAddr where
  "ex_dst \<equiv> \<lparr>IP = ''192.0.2.1'', Zone = []\<rparr>"

abbreviation ex_session :: "int64 \<Rightarrow> PingProc" where
  "ex_session s \<equiv> \<lparr>ident = 5, seqnum = s, dst = ex_dst,
      rttLimit = 2000000000, interval = 1000000000, isIPv6 = False, ttl = 100\<rparr>"

abbreviation ex_session_v4 :: "int64 \<Rightarrow> PingProc_v4" where
  "ex_session_v4 s \<equiv> \<lparr>ident = 5, seqnum = s, dst = ex_dst,
      rttLimit = 2000000000, interval = 1300000000\<rparr>"

abbreviation ex_t0 :: Time where "ex_t0 \<equiv> \<lparr>unix_sec = 1700000000, unix_nsec = 0\<rparr>"

abbreviation ex_t1 :: Time where "ex_t1 \<equiv> \<lparr>unix_sec = 1700000000, unix_nsec = 50000000\<rparr>"

abbreviation ex_t2 :: Time where "ex_t2 \<equiv> \<lparr>unix_sec = 1700000001, unix_nsec = 50000000\<rparr>"

abbreviation ex_reply :: "int64 \<Rightarrow> Message" where
  "ex_reply s \<equiv> \<lparr>Type = ipv4_ICMPTypeEchoReply, Code = 0, Body = Echo 5 s (timeToBytes ex_t0)\<rparr>"

abbreviation ex_request :: "int64 \<Rightarrow> Time \<Rightarrow> Message" where
  "ex_request s t \<equiv> \<lparr>Type = ipv4_ICMPTypeEcho, Code = 0, Body = Echo 5 s (timeToBytes t)\<rparr>"

abbreviation ex_pass :: "bool \<Rightarrow> string option \<Rightarrow> loop_in" where
  "ex_pass first werr \<equiv> \<lparr>msg_first = first, recv_now = ex_t1, send_now = ex_t2, write_err = werr\<rparr>"

abbreviation ex_parse :: "Message \<Rightarrow> parser" where
  "ex_parse m \<equiv> (\<lambda>proto bytes. Inr m)"

declare timeToBytes_loop.simps [simp del] bytesToTime_loop.simps [simp del] digits.simps [simp del]

section \<open>Lemmas about the codec\<close>

lemma ff_mask: "(0xff :: int64) = mask 8"
  by (simp add: mask_eq_exp_minus_1)

lemma byte_term:
  fixes n :: int64
  assumes "k \<le> 56"
  shows "ucast (ucast (0xff AND signed_drop_bit k n) :: byte) = (take_bit 8 (drop_bit k n) :: int64)"
  unfolding ff_mask using assms by (intro bit_word_eqI) (auto simp: bit_simps)

lemma split8:
  fixes n :: int64
  shows "drop_bit k n = take_bit 8 (drop_bit k n) + push_bit 8 (drop_bit (k + 8) n)"
proof -
  have "push_bit 8 (drop_bit 8 (drop_bit k n)) + take_bit 8 (drop_bit k n) = drop_bit k n"
    by (rule bits_ident)
  then show ?thesis by (simp add: add.commute)
qed

lemma top8:
  fixes n :: int64
  shows "take_bit 8 (drop_bit 56 n) = drop_bit 56 n"
  by (intro bit_word_eqI) (auto simp: bit_simps dest: bit_imp_le_length)

lemma byte_sum:
  fixes n :: int64
  shows "push_bit 56 (ucast (ucast (0xff AND signed_drop_bit 56 n) :: byte)) 
       + push_bit 48 (ucast (ucast (0xff AND signed_drop_bit 48 n) :: byte))
       + push_bit 40 (ucast (ucast (0xff AND signed_drop_bit 40 n) :: byte))
       + push_bit 32 (ucast (ucast (0xff AND signed_drop_bit 32 n) :: byte))
       + push_bit 24 (ucast (ucast (0xff AND signed_drop_bit 24 n) :: byte))
       + push_bit 16 (ucast (ucast (0xff AND signed_drop_bit 16 n) :: byte))
       + push_bit 8 (ucast (ucast (0xff AND signed_drop_bit 8 n) :: byte))
       + ucast (ucast (0xff AND n) :: byte) = n"
proof -
  define t where "t k = take_bit 8 (drop_bit k n)" for k
  have b0: "ucast (ucast (0xff AND n) :: byte) = t 0"
    using byte_term [of 0 n] by (simp add: t_def)
  have bk: "k \<le> 56 \<Longrightarrow> ucast (ucast (0xff AND signed_drop_bit k n) :: byte) = t k" for k
    by (simp add: byte_term t_def)
  have s: "drop_bit k n = t k + push_bit 8 (drop_bit (k + 8) n)" for k
    unfolding t_def by (rule split8)
  have "n = drop_bit 0 n" by simp
  also have "\<dots> = t 0 + push_bit 8 (drop_bit 8 n)" using s [of 0] by simp
  also have "drop_bit 8 n = t 8 + push_bit 8 (drop_bit 16 n)" using s [of 8] by simp
  also have "drop_bit 16 n = t 16 + push_bit 8 (drop_bit 24 n)" using s [of 16] by simp
  also have "drop_bit 24 n = t 24 + push_bit 8 (drop_bit 32 n)" using s [of 24] by simp
  also have "drop_bit 32 n = t 32 + push_bit 8 (drop_bit 40 n)" using s [of 32] by simp
  also have "drop_bit 40 n = t 40 + push_bit 8 (drop_bit 48 n)" using s [of 40] by simp
  also have "drop_bit 48 n = t 48 + push_bit 8 (drop_bit 56 n)" using s [of 48] by simp
  also have "drop_bit 56 n = t 56" by (simp add: t_def top8)
  finally have e: "n = t 0 + push_bit 8 (t 8 + push_bit 8 (t 16 + push_bit 8 (t 24 + push_bit 8 (t 32
      + push_bit 8 (t 40 + push_bit 8 (t 48 + push_bit 8 (t 56)))))))" .
  have "push_bit 56 (t 56) + push_bit 48 (t 48) + push_bit 40 (t 40) + push_bit 32 (t 32)
      + push_bit 24 (t 24) + push_bit 16 (t 16) + push_bit 8 (t 8) + t 0
      = t 0 + push_bit 8 (t 8 + push_bit 8 (t 16 + push_bit 8 (t 24 + push_bit 8 (t 32
      + push_bit 8 (t 40 + push_bit 8 (t 48 + push_bit 8 (t 56)))))))"
    by (simp add: push_bit_add ac_simps)
  also have "\<dots> = n" using e by simp
  finally show ?thesis
    by (simp only: bk [of 56] bk [of 48] bk [of 40] bk [of 32] bk [of 24] bk [of 16] bk [of 8] b0)
qed

lemma sint_w64:
  assumes "- 9223372036854775808 \<le> x" "x < 9223372036854775808"
  shows "sint (word_of_int x :: int64) = x"
  using assms by (simp add: signed_of_int signed_take_bit_int_eq_self)

lemma quo_rem_nonneg:
  fixes N :: int
  assumes "N = s * 1000000000 + ns" "0 \<le> ns" "ns < 1000000000" "0 \<le> N"
  shows "N sdiv 1000000000 = s" "N smod 1000000000 = ns"
proof -
  have d: "N div 1000000000 = s" and m: "N mod 1000000000 = ns"
    using assms by simp_all
  show "N sdiv 1000000000 = s"
    using assms(4) d by (auto simp: signed_divide_int_def sgn_if)
  show "N smod 1000000000 = ns"
    using assms(4) m by (auto simp: signed_modulo_int_def sgn_if)
qed

lemma quo_rem_neg:
  fixes N :: int
  assumes "N = s * 1000000000 + ns" "0 \<le> ns" "ns < 1000000000" "N < 0"
  shows "N sdiv 1000000000 = (if ns = 0 then s else s + 1)"
        "N smod 1000000000 = (if ns = 0 then 0 else ns - 1000000000)"
proof -
  have a: "\<bar>N\<bar> = - N" using assms(4) by simp
  show q: "N sdiv 1000000000 = (if ns = 0 then s else s + 1)"
  proof (cases "ns = 0")
    case True
    then have "- N = (- s) * 1000000000" using assms(1) by simp
    then have "(- N) div 1000000000 = - s" by simp
    then show ?thesis using True assms(4) a by (simp add: signed_divide_int_def sgn_if)
  next
    case False
    have "- N = (- s - 1) * 1000000000 + (1000000000 - ns)" using assms(1) by simp
    moreover have "0 \<le> 1000000000 - ns" "1000000000 - ns < 1000000000" using assms False by simp_all
    ultimately have "(- N) div 1000000000 = - s - 1"
      by (metis div_pos_pos_trivial div_mult_self3 add.right_neutral zero_neq_numeral)
    then show ?thesis using False assms(4) a by (simp add: signed_divide_int_def sgn_if)
  qed
  have "N sdiv 1000000000 * 1000000000 + N smod 1000000000 = N"
    by (rule sdiv_mult_smod_eq)
  then show "N smod 1000000000 = (if ns = 0 then 0 else ns - 1000000000)"
    using q assms(1) by (simp split: if_splits)
qed

lemma Unix_quo_rem:
  fixes N :: int
  assumes N: "N = s * 1000000000 + ns" and ns: "0 \<le> ns" "ns < 1000000000"
    and r: "- 9223372036854775808 \<le> N" "N < 9223372036854775808"
  shows "Unix (int64_quo (word_of_int N) 1000000000) (int64_rem (word_of_int N) 1000000000)
         = \<lparr>unix_sec = s, unix_nsec = ns\<rparr>"
proof -
  have sN: "sint (word_of_int N :: int64) = N" using r by (rule sint_w64)
  have c: "sint (1000000000 :: int64) = 1000000000" by simp
  have sb: "- 9223372037 \<le> s" "s \<le> 9223372036" using N ns r by simp_all
  show ?thesis
  proof (cases "0 \<le> N")
    case True
    have q: "N sdiv 1000000000 = s" and m: "N smod 1000000000 = ns"
      using quo_rem_nonneg [OF N ns True] by simp_all
    have 1: "sint (word_of_int ns :: int64) = ns" using ns by (intro sint_w64) simp_all
    have 2: "sint (word_of_int s :: int64) = s" using sb by (intro sint_w64) simp_all
    show ?thesis
      using ns by (simp add: Unix_def int64_quo_def int64_rem_def sN q m word_sless_alt word_sle_eq 1 2)
  next
    case False
    then have neg: "N < 0" by simp
    note qr = quo_rem_neg [OF N ns neg]
    show ?thesis
    proof (cases "ns = 0")
      case True
      have 2: "sint (word_of_int s :: int64) = s" using sb by (intro sint_w64) simp_all
      show ?thesis
        using True by (simp add: Unix_def int64_quo_def int64_rem_def sN qr word_sless_alt word_sle_eq 2)
    next
      case nz: False
      have "sint (word_of_int (ns - 1000000000) :: int64) = ns - 1000000000"
        using ns by (intro sint_w64) simp_all
      then have 1: "sint (word_of_int ns - 1000000000 :: int64) = ns - 1000000000"
        by simp
      have 2: "sint (word_of_int s :: int64) = s" using sb by (intro sint_w64) simp_all
      have 3: "sint (word_of_int ns :: int64) = ns" using ns by (intro sint_w64) simp_all
      have z: "(ns - 1000000000) sdiv 1000000000 = 0"
        using ns nz by (simp add: signed_divide_int_def sgn_if)
      show ?thesis
        using nz ns by (simp add: Unix_def int64_quo_def int64_rem_def sN qr word_sless_alt word_sle_eq 1 2 3 z Let_def)
    qed
  qed
qed

lemma length_timeToBytes_loop: "length (timeToBytes_loop n i bs) = length bs"
proof (induction n i bs rule: timeToBytes_loop.induct)
  case (1 nsecs i bytes)
  show ?case
  proof (cases "i < 8")
    case True
    then show ?thesis using "1" by (subst timeToBytes_loop.simps) simp
  next
    case False
    then show ?thesis by (subst timeToBytes_loop.simps) simp
  qed
qed

lemma bytesToTime_loop_total:
  "8 \<le> length bs \<Longrightarrow> \<exists>v. bytesToTime_loop bs i a = Inr v"
proof (induction bs i a rule: bytesToTime_loop.induct)
  case (1 bytes i nsecs)
  show ?case
  proof (cases "i < 8")
    case True
    then have "i < length bytes" using "1.prems" by simp
    then show ?thesis using True "1" by (subst bytesToTime_loop.simps) simp
  next
    case False
    then show ?thesis by (subst bytesToTime_loop.simps) simp
  qed
qed

lemma bytesToTime_loop_short:
  "length bs < 8 \<Longrightarrow> i \<le> length bs \<Longrightarrow>
     bytesToTime_loop bs i a = Inl (IndexOutOfRange (length bs) (length bs))"
proof (induction bs i a rule: bytesToTime_loop.induct)
  case (1 bytes i nsecs)
  show ?case
  proof (cases "i < length bytes")
    case True
    then show ?thesis using "1" by (subst bytesToTime_loop.simps) simp
  next
    case False
    then have "i = length bytes" using "1.prems" by simp
    then show ?thesis using "1.prems" by (subst bytesToTime_loop.simps) simp
  qed
qed

lemma timeToBytes_explicit:
  "timeToBytes t =
    [ucast (0xff AND signed_drop_bit 56 (UnixNano t)), ucast (0xff AND signed_drop_bit 48 (UnixNano t)),
     ucast (0xff AND signed_drop_bit 40 (UnixNano t)), ucast (0xff AND signed_drop_bit 32 (UnixNano t)),
     ucast (0xff AND signed_drop_bit 24 (UnixNano t)), ucast (0xff AND signed_drop_bit 16 (UnixNano t)),
     ucast (0xff AND signed_drop_bit 8 (UnixNano t)), ucast (0xff AND UnixNano t)]"
  unfolding timeToBytes_def
  by (subst timeToBytes_loop.simps, simp add: numeral_eq_Suc)+

lemma bytesToTime_loop_explicit:
  "bytesToTime_loop (b0 # b1 # b2 # b3 # b4 # b5 # b6 # b7 # rest) 0 0 =
    Inr (push_bit 56 (ucast b0) + push_bit 48 (ucast b1) + push_bit 40 (ucast b2)
       + push_bit 32 (ucast b3) + push_bit 24 (ucast b4) + push_bit 16 (ucast b5)
       + push_bit 8 (ucast b6) + ucast b7)"
  by (subst bytesToTime_loop.simps, simp)+

lemma decode_encode_nanos: "bytesToTime_loop (timeToBytes t) 0 0 = Inr (UnixNano t)"
  by (simp only: timeToBytes_explicit bytesToTime_loop_explicit byte_sum)

lemma decode_encode:
  assumes "wf_Time t"
    and "- 9223372036854775808 \<le> unix_sec t * 1000000000 + unix_nsec t"
    and "unix_sec t * 1000000000 + unix_nsec t < 9223372036854775808"
  shows "bytesToTime (timeToBytes t) = Inr t"
proof -
  have "Unix (int64_quo (UnixNano t) 1000000000) (int64_rem (UnixNano t) 1000000000)
        = \<lparr>unix_sec = unix_sec t, unix_nsec = unix_nsec t\<rparr>"
    unfolding UnixNano_def
    using assms by (intro Unix_quo_rem) (simp_all add: wf_Time_def)
  then show ?thesis
    by (simp add: bytesToTime_def decode_encode_nanos)
qed

lemma decode_example:
  "bytesToTime (timeToBytes \<lparr>unix_sec = 1700000000, unix_nsec = 0\<rparr>)
     = Inr \<lparr>unix_sec = 1700000000, unix_nsec = 0\<rparr>"
  by (rule decode_encode) (simp_all add: wf_Time_def)

section \<open>Claims about the wire codec\<close>

text \<open>
  C5 (amended). For every instant \<open>t\<close> with nanoseconds in [0, 1e9) whose count of
  nanoseconds since the epoch fits a signed 64-bit integer (from \<open>- 2 ^ 63\<close> up to
  \<open>2 ^ 63 - 1\<close>, the years 1678 to 2262), decoding the payload produced by the encoder
  gives \<open>t\<close> back exactly. The encoder reads the instant through \<^verbatim>\<open>UnixNano\<close>, an
  \<^verbatim>\<open>int64\<close>, so the range is the signed one, not the unsigned one.
\<close>

theorem C5_roundtrip_int64:
  assumes "wf_Time t"
    and "- 9223372036854775808 \<le> unix_sec t * 1000000000 + unix_nsec t"
    and "unix_sec t * 1000000000 + unix_nsec t < 9223372036854775808"
  shows "bytesToTime (timeToBytes t) = Inr t"
  using assms by (rule decode_encode)

theorem C5_roundtrip_int64_witness:
  "wf_Time \<lparr>unix_sec = - 5, unix_nsec = 854775808\<rparr>
   \<and> - 9223372036854775808 \<le> (- 5) * 1000000000 + (854775808 :: int)
   \<and> (- 5) * 1000000000 + (854775808 :: int) < 9223372036854775808
   \<and> bytesToTime (timeToBytes \<lparr>unix_sec = - 5, unix_nsec = 854775808\<rparr>)
       = Inr \<lparr>unix_sec = - 5, unix_nsec = 854775808\<rparr>"
  using C5_roundtrip_int64 [of "\<lparr>unix_sec = - 5, unix_nsec = 854775808\<rparr>"]
  by (simp add: wf_Time_def)

text \<open>
  C5, as stated, fails: the instant \<open>2 ^ 63\<close> nanoseconds after the epoch (in the year
  2262) has its nanoseconds in [0, 1e9) and a count that fits 64 unsigned bits, and the
  decoder returns an instant in the year 1677 for its payload.
\<close>

theorem C5_counterexample:
  "wf_Time \<lparr>unix_sec = 9223372036, unix_nsec = 854775808\<rparr>
   \<and> (0 :: int) \<le> 9223372036 * 1000000000 + 854775808
   \<and> (9223372036 * 1000000000 + 854775808 :: int) < 2 ^ 64
   \<and> bytesToTime (timeToBytes \<lparr>unix_sec = 9223372036, unix_nsec = 854775808\<rparr>)
       = Inr \<lparr>unix_sec = - 9223372037, unix_nsec = 145224192\<rparr>
   \<and> bytesToTime (timeToBytes \<lparr>unix_sec = 9223372036, unix_nsec = 854775808\<rparr>)
       \<noteq> Inr \<lparr>unix_sec = 9223372036, unix_nsec = 854775808\<rparr>"
  by (simp add: wf_Time_def bytesToTime_def decode_encode_nanos UnixNano_def Unix_def
      int64_quo_def int64_rem_def word_sless_alt word_sle_eq
      signed_divide_int_def signed_modulo_int_def)

text \<open>
  C9. The encoder returns 8 bytes for every instant. On a slice of at least 8 bytes the
  decoder returns an instant: the index check never fails. On a shorter slice it panics
  with an index out of range at the first missing byte; it returns no error value.
\<close>

theorem C9_codec_safety:
  "length (timeToBytes t) = 8
   \<and> (8 \<le> length bs \<longrightarrow> (\<exists>t'. bytesToTime bs = Inr t'))
   \<and> (length cs < 8 \<longrightarrow> bytesToTime cs = Inl (IndexOutOfRange (length cs) (length cs)))"
proof (intro conjI impI)
  show "length (timeToBytes t) = 8"
    by (simp add: timeToBytes_def length_timeToBytes_loop)
next
  assume "8 \<le> length bs"
  then obtain v where "bytesToTime_loop bs 0 0 = Inr v"
    using bytesToTime_loop_total by blast
  then show "\<exists>t'. bytesToTime bs = Inr t'"
    by (simp add: bytesToTime_def)
next
  assume "length cs < 8"
  then show "bytesToTime cs = Inl (IndexOutOfRange (length cs) (length cs))"
    by (simp add: bytesToTime_def bytesToTime_loop_short)
qed

theorem C9_codec_safety_witness:
  "length (timeToBytes \<lparr>unix_sec = 1, unix_nsec = 5\<rparr>) = 8
   \<and> 8 \<le> length [0, 0, 0, 0, 59, 154, 202, 5 :: byte]
   \<and> (\<exists>t'. bytesToTime [0, 0, 0, 0, 59, 154, 202, 5] = Inr t')
   \<and> length [1, 2, 3 :: byte] < 8
   \<and> bytesToTime [1, 2, 3] = Inl (IndexOutOfRange 3 3)"
  using C9_codec_safety [of "\<lparr>unix_sec = 1, unix_nsec = 5\<rparr>"
      "[0, 0, 0, 0, 59, 154, 202, 5]" "[1, 2, 3]"]
  by simp

section \<open>Lemmas about the session\<close>

lemma sendEcho_eq:
  "sendEcho p now w =
     (p\<lparr>seqnum := seqnum p + 1\<rparr>,
      [WriteTo \<lparr>Type = (if \<not> isIPv6 p then ipv4_ICMPTypeEcho else ipv6_ICMPTypeEchoRequest),
                Code = 0, Body = Echo (ident p) (seqnum p + 1) (timeToBytes now)\<rparr> (dst p)],
      map_option ((@) ''Send echo error: '') w)"
  by (cases w) (simp_all add: sendEcho_def Let_def)

lemma sendEcho_v4_eq:
  "sendEcho_v4 p now w =
     (p, [WriteTo \<lparr>Type = ipv4_ICMPTypeEcho, Code = 0,
                   Body = Echo (ident p) (seqnum p) (timeToBytes now)\<rparr> (dst p)],
      map_option ((@) ''Send echo error: '') w)"
  by (cases w) (simp_all add: sendEcho_v4_def Let_def)

lemma handleMsg_prints:
  "handleMsg p m h now = Inr acts \<Longrightarrow> list_all is_Printf acts"
  by (auto simp: handleMsg_def handleEchoReply_def handleTimeExceeded_def
      split: if_splits sum.splits message_body.splits)

lemma handleMsg_no_unreachable:
  "handleMsg p m h now = Inr acts \<Longrightarrow> filter is_unreachable acts = []"
  by (auto simp: handleMsg_def handleEchoReply_def handleTimeExceeded_def
      split: if_splits sum.splits message_body.splits)

lemma select_body_shape:
  assumes "select_body p sel now = Inr acts"
  shows "(sel = None \<and> acts = [Printf ''unreachable: %s.\<newline>'' [ArgS (IP (dst p))]])
       \<or> (sel \<noteq> None \<and> (\<exists>hs. acts = hs @ [TimerStop, Sleep (interval p)] \<and> list_all is_Printf hs))"
proof (cases sel)
  case None
  then show ?thesis using assms by (simp add: select_body_def)
next
  case (Some res)
  show ?thesis
  proof (cases "err res")
    case e: None
    then obtain m where m: "msg res = Some m"
      using assms Some by (cases "msg res") (simp_all add: select_body_def)
    then obtain hs where hs: "handleMsg p m (rttl res) now = Inr hs"
      using assms Some e by (cases "handleMsg p m (rttl res) now") (simp_all add: select_body_def)
    then have "acts = hs @ [TimerStop, Sleep (interval p)]"
      using assms Some e m by (simp add: select_body_def)
    then show ?thesis using Some handleMsg_prints [OF hs] by blast
  next
    case (Some e)
    then show ?thesis using assms \<open>sel = Some res\<close> by (auto simp: select_body_def)
  qed
qed

lemma list_all_Printf_sends: "list_all is_Printf hs \<Longrightarrow> filter is_WriteTo hs = []"
proof (induction hs)
  case Nil
  then show ?case by simp
next
  case (Cons a hs)
  then show ?case by (cases a) simp_all
qed

lemma sends_simps [simp]:
  "sends [] = 0"
  "sends (a # xs) = (if is_WriteTo a then 1 else 0) + sends xs"
  "sends (xs @ ys) = sends xs + sends ys"
  by (simp_all add: sends_def)

lemma timeouts_simps [simp]:
  "timeouts [] = 0"
  "timeouts (a # xs) = (if is_unreachable a then 1 else 0) + timeouts xs"
  "timeouts (xs @ ys) = timeouts xs + timeouts ys"
  by (simp_all add: timeouts_def)

lemma sendEcho_shape:
  obtains m where "sendEcho p now w =
     (p\<lparr>seqnum := seqnum p + 1\<rparr>, [WriteTo m (dst p)], map_option ((@) ''Send echo error: '') w)"
  using sendEcho_eq by blast

lemma sendEcho_v4_shape:
  obtains m where "sendEcho_v4 p now w =
     (p, [WriteTo m (dst p)], map_option ((@) ''Send echo error: '') w)"
  using sendEcho_v4_eq by blast

lemma select_body_sends:
  assumes "select_body p sel now = Inr acts"
  shows "sends acts = 0"
  using select_body_shape [OF assms]
  by (auto simp: sends_def list_all_Printf_sends)

lemma pingLoop_for_step:
  assumes "select_arm (msg_first i) ch = (sel, ch')"
    and "select_body p sel (recv_now i) = Inr acts"
    and "sendEcho p (send_now i) (write_err i) = (p1, sent, serr)"
  shows "pingLoop_for p ch (i # ins) =
     (case serr of
        Some e \<Rightarrow> (p1, acts @ [TimerReset (rttLimit p)] @ sent
                       @ [Printf ''Send error: %s.\<newline>'' [ArgS e], TimerStop], Returned None)
      | None \<Rightarrow> (case pingLoop_for p1 ch' ins of
                   (p'', tr, out) \<Rightarrow> (p'', acts @ [TimerReset (rttLimit p)] @ sent @ tr, out)))"
  using assms by (cases serr) (simp_all split: prod.splits)

lemma pingLoop_for_panic:
  assumes "select_arm (msg_first i) ch = (sel, ch')"
    and "select_body p sel (recv_now i) = Inl e"
  shows "pingLoop_for p ch (i # ins) = (p, [], Panicked e)"
  using assms by simp

lemma pingLoop_for_seqnum:
  "pingLoop_for p ch ins = (p', tr, out) \<Longrightarrow> seqnum p' = seqnum p + of_nat (sends tr)"
proof (induction ins arbitrary: p ch p' tr out)
  case Nil
  then show ?case by simp
next
  case (Cons i ins)
  obtain sel ch' where arm: "select_arm (msg_first i) ch = (sel, ch')"
    by (cases "select_arm (msg_first i) ch")
  show ?case
  proof (cases "select_body p sel (recv_now i)")
    case (Inl e)
    then show ?thesis using Cons.prems pingLoop_for_panic [OF arm Inl] by simp
  next
    case (Inr acts)
    note z = select_body_sends [OF Inr]
    obtain m where se: "sendEcho p (send_now i) (write_err i) =
        (p\<lparr>seqnum := seqnum p + 1\<rparr>, [WriteTo m (dst p)],
         map_option ((@) ''Send echo error: '') (write_err i))"
      by (rule sendEcho_shape)
    note step = pingLoop_for_step [OF arm Inr se, of ins]
    show ?thesis
    proof (cases "write_err i")
      case (Some e)
      then show ?thesis using Cons.prems step z by auto
    next
      case None
      obtain p2 tr2 out2 where rec: "pingLoop_for (p\<lparr>seqnum := seqnum p + 1\<rparr>) ch' ins = (p2, tr2, out2)"
        by (cases "pingLoop_for (p\<lparr>seqnum := seqnum p + 1\<rparr>) ch' ins")
      from Cons.IH [OF rec] have "seqnum p2 = seqnum p + 1 + of_nat (sends tr2)" by simp
      then show ?thesis
        using Cons.prems step z None rec by auto
    qed
  qed
qed

lemma pingLoop_for_Waiting_sends:
  "pingLoop_for p ch ins = (p', tr, Waiting) \<Longrightarrow> sends tr = length ins"
proof (induction ins arbitrary: p ch p' tr)
  case Nil
  then show ?case by simp
next
  case (Cons i ins)
  obtain sel ch' where arm: "select_arm (msg_first i) ch = (sel, ch')"
    by (cases "select_arm (msg_first i) ch")
  show ?case
  proof (cases "select_body p sel (recv_now i)")
    case (Inl e)
    then show ?thesis using Cons.prems pingLoop_for_panic [OF arm Inl] by simp
  next
    case (Inr acts)
    note z = select_body_sends [OF Inr]
    obtain m where se: "sendEcho p (send_now i) (write_err i) =
        (p\<lparr>seqnum := seqnum p + 1\<rparr>, [WriteTo m (dst p)],
         map_option ((@) ''Send echo error: '') (write_err i))"
      by (rule sendEcho_shape)
    note step = pingLoop_for_step [OF arm Inr se, of ins]
    show ?thesis
    proof (cases "write_err i")
      case (Some e)
      then show ?thesis using Cons.prems step by auto
    next
      case None
      obtain p2 tr2 out2 where rec: "pingLoop_for (p\<lparr>seqnum := seqnum p + 1\<rparr>) ch' ins = (p2, tr2, out2)"
        by (cases "pingLoop_for (p\<lparr>seqnum := seqnum p + 1\<rparr>) ch' ins")
      then have "out2 = Waiting" using Cons.prems step None by auto
      with Cons.IH rec have "sends tr2 = length ins" by simp
      then show ?thesis
        using Cons.prems step z None rec by auto
    qed
  qed
qed

lemma handleRecv_v4_prints:
  "handleRecv_v4 parse p bs now = Inr acts \<Longrightarrow> list_all is_Printf acts \<and> filter is_unreachable acts = []"
  by (auto simp: handleRecv_v4_def split: if_splits sum.splits message_body.splits)

lemma select_body_v4_shape:
  assumes "select_body_v4 parse p sel now = Inr (p1, acts)"
  shows "(sel = None \<and> p1 = p\<lparr>seqnum := seqnum p + 1\<rparr>
            \<and> acts = [Printf ''unreachable: %s.\<newline>'' [ArgS (IP (dst p))]])
       \<or> (sel \<noteq> None \<and> p1 = p
            \<and> (\<exists>hs. acts = hs @ [TimerStop, Sleep (interval p)] \<and> list_all is_Printf hs
                  \<and> filter is_unreachable hs = []))"
proof (cases sel)
  case None
  then show ?thesis using assms by (auto simp: select_body_v4_def)
next
  case (Some res)
  then obtain hs where hs: "handleRecv_v4 parse p (bytes_v4 res) now = Inr hs"
    using assms by (cases "handleRecv_v4 parse p (bytes_v4 res) now") (simp_all add: select_body_v4_def)
  then have "p1 = p" "acts = hs @ [TimerStop, Sleep (interval p)]"
    using assms Some by (auto simp: select_body_v4_def)
  then show ?thesis using Some handleRecv_v4_prints [OF hs] by blast
qed

lemma select_body_v4_counts:
  assumes "select_body_v4 parse p sel now = Inr (p1, acts)"
  shows "sends acts = 0" "seqnum p1 = seqnum p + of_nat (timeouts acts)"
    "rttLimit p1 = rttLimit p" "dst p1 = dst p" "interval p1 = interval p"
  using select_body_v4_shape [OF assms]
  by (auto simp: sends_def timeouts_def list_all_Printf_sends)

lemma pingLoop_for_v4_step:
  assumes "select_arm (msg_first i) ch = (sel, ch')"
    and "select_body_v4 parse p sel (recv_now i) = Inr (p1, acts)"
    and "sendEcho_v4 p1 (send_now i) (write_err i) = (p2, sent, serr)"
  shows "pingLoop_for_v4 parse p ch (i # ins) =
     (case serr of
        Some e \<Rightarrow> (p2, acts @ [TimerReset (rttLimit p1)] @ sent @ [TimerStop], Returned None)
      | None \<Rightarrow> (case pingLoop_for_v4 parse p2 ch' ins of
                   (p'', tr, out) \<Rightarrow> (p'', acts @ [TimerReset (rttLimit p1)] @ sent @ tr, out)))"
  using assms by (cases serr) (simp_all split: prod.splits)

lemma pingLoop_for_v4_panic:
  assumes "select_arm (msg_first i) ch = (sel, ch')"
    and "select_body_v4 parse p sel (recv_now i) = Inl e"
  shows "pingLoop_for_v4 parse p ch (i # ins) = (p, [], Panicked e)"
  using assms by simp

lemma pingLoop_for_v4_seqnum:
  "pingLoop_for_v4 parse p ch ins = (p', tr, out) \<Longrightarrow> seqnum p' = seqnum p + of_nat (timeouts tr)"
proof (induction ins arbitrary: p ch p' tr out)
  case Nil
  then show ?case by simp
next
  case (Cons i ins)
  obtain sel ch' where arm: "select_arm (msg_first i) ch = (sel, ch')"
    by (cases "select_arm (msg_first i) ch")
  show ?case
  proof (cases "select_body_v4 parse p sel (recv_now i)")
    case (Inl e)
    then show ?thesis using Cons.prems pingLoop_for_v4_panic [OF arm Inl] by simp
  next
    case (Inr r)
    obtain p1 acts where r: "r = (p1, acts)" by (cases r)
    note sb = Inr [unfolded r]
    note z = select_body_v4_counts [OF sb]
    obtain m where se: "sendEcho_v4 p1 (send_now i) (write_err i) =
        (p1, [WriteTo m (dst p1)], map_option ((@) ''Send echo error: '') (write_err i))"
      by (rule sendEcho_v4_shape)
    note step = pingLoop_for_v4_step [OF arm sb se, of ins]
    show ?thesis
    proof (cases "write_err i")
      case (Some e)
      then show ?thesis using Cons.prems step z by auto
    next
      case None
      obtain p2 tr2 out2 where rec: "pingLoop_for_v4 parse p1 ch' ins = (p2, tr2, out2)"
        by (cases "pingLoop_for_v4 parse p1 ch' ins")
      from Cons.IH [OF rec] have "seqnum p2 = seqnum p1 + of_nat (timeouts tr2)" by simp
      then show ?thesis
        using Cons.prems step z None rec by auto
    qed
  qed
qed

lemma recvEchoReply_after_error:
  "recvEchoReply p parse (pre @ ReadErr e # rest) = recvEchoReply p parse (pre @ [ReadErr e])"
proof (induction pre)
  case Nil
  then show ?case by simp
next
  case (Cons a pre)
  then show ?case by (cases a) (auto simp: Let_def split: sum.splits prod.splits)
qed

lemma recvEchoReply_returns:
  "snd (recvEchoReply p parse (pre @ ReadErr e # rest))"
proof (induction pre)
  case Nil
  then show ?case by simp
next
  case (Cons a pre)
  then show ?case by (cases a) (auto simp: Let_def split: sum.splits prod.splits)
qed

lemma recvEchoReply_one_error:
  "length (filter (\<lambda>r. err r \<noteq> None) (fst (recvEchoReply p parse reads))) \<le> 1"
proof (induction reads)
  case Nil
  then show ?case by simp
next
  case (Cons a reads)
  then show ?case by (cases a) (auto simp: Let_def split: sum.splits prod.splits)
qed

lemma recvEchoReply_v4_after_error:
  "recvEchoReply_v4 parse (pre @ ReadErr e # rest) = recvEchoReply_v4 parse (pre @ [ReadErr e])"
proof (induction pre)
  case Nil
  then show ?case by simp
next
  case (Cons a pre)
  then show ?case by (cases a) (auto split: sum.splits prod.splits)
qed

lemma recvEchoReply_v4_returns:
  "snd (recvEchoReply_v4 parse (pre @ ReadErr e # rest))"
proof (induction pre)
  case Nil
  then show ?case by simp
next
  case (Cons a pre)
  then show ?case by (cases a) (auto split: sum.splits prod.splits)
qed

lemma select_arm_empty: "select_arm first [] = (None, [])"
  by (simp add: select_arm_def)

lemma pingLoop_for_empty_channel:
  "pingLoop_for p [] ins = pingLoop_for p [] (map (\<lambda>i. i\<lparr>msg_first := False\<rparr>) ins)"
proof (induction ins arbitrary: p)
  case Nil
  then show ?case by simp
next
  case (Cons i ins)
  then show ?case
    by (simp add: select_arm_empty split: sum.splits prod.splits option.splits)
qed

lemma pingLoop_for_v4_empty_channel:
  "pingLoop_for_v4 parse p [] ins = pingLoop_for_v4 parse p [] (map (\<lambda>i. i\<lparr>msg_first := False\<rparr>) ins)"
proof (induction ins arbitrary: p)
  case Nil
  then show ?case by simp
next
  case (Cons i ins)
  then show ?case
    by (simp add: select_arm_empty split: sum.splits prod.splits option.splits)
qed

lemma pingLoop_seqnum:
  assumes "pingLoop p parse reads now0 werr0 ins = (p', tr, out)"
  shows "seqnum p' = seqnum p + of_nat (sends tr)"
proof -
  obtain m where se: "sendEcho p now0 werr0 =
      (p\<lparr>seqnum := seqnum p + 1\<rparr>, [WriteTo m (dst p)], map_option ((@) ''Send echo error: '') werr0)"
    by (rule sendEcho_shape)
  obtain p2 tr2 out2 where rec:
    "pingLoop_for (p\<lparr>seqnum := seqnum p + 1\<rparr>) (fst (recvEchoReply p parse reads)) ins = (p2, tr2, out2)"
    by (cases "pingLoop_for (p\<lparr>seqnum := seqnum p + 1\<rparr>) (fst (recvEchoReply p parse reads)) ins")
  have "seqnum p2 = seqnum p + 1 + of_nat (sends tr2)"
    using pingLoop_for_seqnum [OF rec] by simp
  then show ?thesis using assms se rec by (auto simp: pingLoop_def)
qed

lemma pingLoop_v4_seqnum:
  assumes "pingLoop_v4 p parse reads now0 werr0 ins = (p', tr, out)"
  shows "seqnum p' = seqnum p + of_nat (timeouts tr)"
proof -
  obtain m where se: "sendEcho_v4 p now0 werr0 =
      (p, [WriteTo m (dst p)], map_option ((@) ''Send echo error: '') werr0)"
    by (rule sendEcho_v4_shape)
  obtain p2 tr2 out2 where rec:
    "pingLoop_for_v4 parse p (fst (recvEchoReply_v4 parse reads)) ins = (p2, tr2, out2)"
    by (cases "pingLoop_for_v4 parse p (fst (recvEchoReply_v4 parse reads)) ins")
  have "seqnum p2 = seqnum p + of_nat (timeouts tr2)"
    using pingLoop_for_v4_seqnum [OF rec] by simp
  then show ?thesis using assms se rec by (auto simp: pingLoop_v4_def)
qed

lemma pingLoop_for_pass_shape:
  assumes "select_arm (msg_first i) ch = (sel, ch')"
    and "select_body p sel (recv_now i) = Inr acts"
  shows "\<exists>m p' rest out. pingLoop_for p ch (i # ins)
           = (p', acts @ [TimerReset (rttLimit p), WriteTo m (dst p)] @ rest, out)"
proof -
  obtain m where se: "sendEcho p (send_now i) (write_err i) =
      (p\<lparr>seqnum := seqnum p + 1\<rparr>, [WriteTo m (dst p)],
       map_option ((@) ''Send echo error: '') (write_err i))"
    by (rule sendEcho_shape)
  note step = pingLoop_for_step [OF assms se, of ins]
  show ?thesis
  proof (cases "write_err i")
    case None
    obtain p2 tr2 out2 where "pingLoop_for (p\<lparr>seqnum := seqnum p + 1\<rparr>) ch' ins = (p2, tr2, out2)"
      by (cases "pingLoop_for (p\<lparr>seqnum := seqnum p + 1\<rparr>) ch' ins")
    then show ?thesis using step None by auto
  next
    case (Some e)
    then show ?thesis using step by auto
  qed
qed

lemma pingLoop_for_v4_pass_shape:
  assumes "select_arm (msg_first i) ch = (sel, ch')"
    and "select_body_v4 parse p sel (recv_now i) = Inr (p1, acts)"
  shows "\<exists>m p' rest out. pingLoop_for_v4 parse p ch (i # ins)
           = (p', acts @ [TimerReset (rttLimit p), WriteTo m (dst p)] @ rest, out)"
proof -
  note z = select_body_v4_counts [OF assms(2)]
  obtain m where se: "sendEcho_v4 p1 (send_now i) (write_err i) =
      (p1, [WriteTo m (dst p1)], map_option ((@) ''Send echo error: '') (write_err i))"
    by (rule sendEcho_v4_shape)
  note step = pingLoop_for_v4_step [OF assms se, of ins]
  show ?thesis
  proof (cases "write_err i")
    case None
    obtain p2 tr2 out2 where "pingLoop_for_v4 parse p1 ch' ins = (p2, tr2, out2)"
      by (cases "pingLoop_for_v4 parse p1 ch' ins")
    then show ?thesis using step None z by auto
  next
    case (Some e)
    then show ?thesis using step z by auto
  qed
qed

lemma request_seqs_append: "request_seqs (xs @ ys) = request_seqs xs @ request_seqs ys"
proof (induction xs)
  case Nil
  then show ?case by simp
next
  case (Cons a xs)
  then show ?case by (cases a) (simp_all split: message_body.splits)
qed

lemma counted_per_send_append:
  "counted_per_send s (xs @ ys) = counted_per_send s xs @ counted_per_send (s + of_nat (sends xs)) ys"
proof (induction xs arbitrary: s)
  case Nil
  then show ?case by simp
next
  case (Cons a xs)
  then show ?case by (simp add: add.assoc)
qed

lemma counted_per_timeout_append:
  "counted_per_timeout s (xs @ ys)
     = counted_per_timeout s xs @ counted_per_timeout (s + of_nat (timeouts xs)) ys"
proof (induction xs arbitrary: s)
  case Nil
  then show ?case by simp
next
  case (Cons a xs)
  then show ?case by (simp add: add.assoc)
qed

lemma prints_no_requests:
  "list_all is_Printf hs \<Longrightarrow> request_seqs hs = [] \<and> counted_per_send s hs = []"
proof (induction hs)
  case Nil
  then show ?case by simp
next
  case (Cons a hs)
  then show ?case by (cases a) simp_all
qed

lemma prints_no_timeout_requests:
  "list_all is_Printf hs \<Longrightarrow> filter is_unreachable hs = [] \<Longrightarrow> counted_per_timeout s hs = []"
proof (induction hs)
  case Nil
  then show ?case by simp
next
  case (Cons a hs)
  then show ?case by (cases a) (simp_all split: if_splits)
qed

lemma select_body_requests:
  assumes "select_body p sel now = Inr acts"
  shows "request_seqs acts = []" "counted_per_send s acts = []"
  using select_body_shape [OF assms]
  by (auto simp: request_seqs_append counted_per_send_append prints_no_requests)

lemma pingLoop_for_request_seqs:
  "pingLoop_for p ch ins = (p', tr, out) \<Longrightarrow> request_seqs tr = counted_per_send (seqnum p) tr"
proof (induction ins arbitrary: p ch p' tr out)
  case Nil
  then show ?case by simp
next
  case (Cons i ins)
  obtain sel ch' where arm: "select_arm (msg_first i) ch = (sel, ch')"
    by (cases "select_arm (msg_first i) ch")
  show ?case
  proof (cases "select_body p sel (recv_now i)")
    case (Inl e)
    then show ?thesis using Cons.prems pingLoop_for_panic [OF arm Inl] by simp
  next
    case (Inr acts)
    note z = select_body_sends [OF Inr] select_body_requests [OF Inr]
    note se = sendEcho_eq [of p "send_now i" "write_err i"]
    note step = pingLoop_for_step [OF arm Inr se, of ins]
    show ?thesis
    proof (cases "write_err i")
      case (Some e)
      then show ?thesis
        using Cons.prems step z by (auto simp: request_seqs_append counted_per_send_append)
    next
      case None
      obtain p2 tr2 out2 where rec: "pingLoop_for (p\<lparr>seqnum := seqnum p + 1\<rparr>) ch' ins = (p2, tr2, out2)"
        by (cases "pingLoop_for (p\<lparr>seqnum := seqnum p + 1\<rparr>) ch' ins")
      from Cons.IH [OF rec] have "request_seqs tr2 = counted_per_send (seqnum p + 1) tr2" by simp
      then show ?thesis
        using Cons.prems step z None rec by (auto simp: request_seqs_append counted_per_send_append)
    qed
  qed
qed

lemma select_body_v4_requests:
  assumes "select_body_v4 parse p sel now = Inr (p1, acts)"
  shows "request_seqs acts = []" "counted_per_timeout s acts = []"
  using select_body_v4_shape [OF assms]
  by (auto simp: request_seqs_append counted_per_timeout_append prints_no_requests
      prints_no_timeout_requests)

lemma pingLoop_for_v4_request_seqs:
  "pingLoop_for_v4 parse p ch ins = (p', tr, out)
     \<Longrightarrow> request_seqs tr = counted_per_timeout (seqnum p) tr"
proof (induction ins arbitrary: p ch p' tr out)
  case Nil
  then show ?case by simp
next
  case (Cons i ins)
  obtain sel ch' where arm: "select_arm (msg_first i) ch = (sel, ch')"
    by (cases "select_arm (msg_first i) ch")
  show ?case
  proof (cases "select_body_v4 parse p sel (recv_now i)")
    case (Inl e)
    then show ?thesis using Cons.prems pingLoop_for_v4_panic [OF arm Inl] by simp
  next
    case (Inr r)
    obtain p1 acts where r: "r = (p1, acts)" by (cases r)
    note sb = Inr [unfolded r]
    note z = select_body_v4_counts [OF sb] select_body_v4_requests [OF sb]
    note se = sendEcho_v4_eq [of p1 "send_now i" "write_err i"]
    note step = pingLoop_for_v4_step [OF arm sb se, of ins]
    show ?thesis
    proof (cases "write_err i")
      case (Some e)
      then show ?thesis
        using Cons.prems step z by (auto simp: request_seqs_append counted_per_timeout_append)
    next
      case None
      obtain p2 tr2 out2 where rec: "pingLoop_for_v4 parse p1 ch' ins = (p2, tr2, out2)"
        by (cases "pingLoop_for_v4 parse p1 ch' ins")
      from Cons.IH [OF rec] have "request_seqs tr2 = counted_per_timeout (seqnum p1) tr2" by simp
      then show ?thesis
        using Cons.prems step z None rec by (auto simp: request_seqs_append counted_per_timeout_append)
    qed
  qed
qed

lemma pingLoop_request_seqs:
  assumes "pingLoop p parse reads now0 werr0 ins = (p', tr, out)"
  shows "request_seqs tr = counted_per_send (seqnum p) tr"
proof -
  note se = sendEcho_eq [of p now0 werr0]
  obtain p2 tr2 out2 where rec:
    "pingLoop_for (p\<lparr>seqnum := seqnum p + 1\<rparr>) (fst (recvEchoReply p parse reads)) ins = (p2, tr2, out2)"
    by (cases "pingLoop_for (p\<lparr>seqnum := seqnum p + 1\<rparr>) (fst (recvEchoReply p parse reads)) ins")
  have "request_seqs tr2 = counted_per_send (seqnum p + 1) tr2"
    using pingLoop_for_request_seqs [OF rec] by simp
  then show ?thesis using assms se rec by (auto simp: pingLoop_def)
qed

lemma pingLoop_v4_request_seqs:
  assumes "pingLoop_v4 p parse reads now0 werr0 ins = (p', tr, out)"
  shows "request_seqs tr = counted_per_timeout (seqnum p) tr"
proof -
  note se = sendEcho_v4_eq [of p now0 werr0]
  obtain p2 tr2 out2 where rec:
    "pingLoop_for_v4 parse p (fst (recvEchoReply_v4 parse reads)) ins = (p2, tr2, out2)"
    by (cases "pingLoop_for_v4 parse p (fst (recvEchoReply_v4 parse reads)) ins")
  have "request_seqs tr2 = counted_per_timeout (seqnum p) tr2"
    using pingLoop_for_v4_request_seqs [OF rec] by simp
  then show ?thesis using assms se rec by (auto simp: pingLoop_v4_def)
qed

lemma unat_add_of_nat_mod16:
  fixes w :: int64
  shows "unat (w + of_nat n) mod 2 ^ 16 = (unat w + n) mod 2 ^ 16"
proof -
  have "unat (w + of_nat n) = (unat w + n) mod 2 ^ 64"
    by (simp add: unat_word_ariths unat_of_nat mod_simps)
  moreover have "(unat w + n) mod 2 ^ 64 mod 2 ^ 16 = (unat w + n) mod 2 ^ 16"
    by (rule mod_mod_cancel) simp
  ultimately show ?thesis by simp
qed

section \<open>Claims about the session\<close>

text \<open>
  C1 (amended). Every echo reply delivered to the control loop, whether or not its
  identifier and sequence equal the session's, ends the current pass: after the handler's
  printing the timer is stopped, the loop sleeps for the interval, re-arms the timer and
  sends the next request; there is no way back into the wait. A reply with both fields
  equal to the current values, and a payload of 8 bytes or more, is reported with the
  round-trip time \<open>now - decode(payload)\<close>. For a reply with a differing field the
  payload is never decoded and the clock never read: what the handler does for it is the
  same for every payload and every clock reading.
\<close>

theorem C1_reply_ends_cycle:
  assumes "msg_first i" and "err res = None" and "msg res = Some m"
    and "Type m = ipv4_ICMPTypeEchoReply \<or> Type m = ipv6_ICMPTypeEchoReply"
    and "Body m = Echo bid bseq bdata"
    and "bid = ident p \<and> bseq = seqnum p \<longrightarrow> bytesToTime bdata = Inr t"
    and "sendEcho p (send_now i) (write_err i) = (p1, sent, serr)"
  shows "\<exists>line.
      list_all is_Printf line
    \<and> (bid = ident p \<and> bseq = seqnum p \<longrightarrow>
         line = [Printf ''64 bytes from %s: icmp_seq=%d ttl=%d time=%dms\<newline>''
                   [ArgS (IP (dst p)), ArgD (seqnum p), ArgD (rttl res),
                    ArgD (Milliseconds (Since (recv_now i) t))]])
    \<and> (\<not> (bid = ident p \<and> bseq = seqnum p) \<longrightarrow>
         (\<forall>d' now'. handleMsg p (m\<lparr>Body := Echo bid bseq d'\<rparr>) (rttl res) now' = Inr line))
    \<and> pingLoop_for p (res # ch) (i # ins) =
        (case serr of
           Some e \<Rightarrow>
             (p1, line @ [TimerStop, Sleep (interval p)] @ [TimerReset (rttLimit p)] @ sent
                    @ [Printf ''Send error: %s.\<newline>'' [ArgS e], TimerStop],
              Returned None)
         | None \<Rightarrow>
             (case pingLoop_for p1 ch ins of
                (p'', tr, out) \<Rightarrow>
                  (p'', line @ [TimerStop, Sleep (interval p)] @ [TimerReset (rttLimit p)] @ sent @ tr,
                   out)))"
proof -
  obtain line where h: "handleMsg p m (rttl res) (recv_now i) = Inr line"
    using assms(4,5,6)
    by (cases "bid = ident p \<and> bseq = seqnum p") (auto simp: handleMsg_def handleEchoReply_def)
  have p: "list_all is_Printf line" using h by (rule handleMsg_prints)
  have s: "bid = ident p \<and> bseq = seqnum p \<longrightarrow>
         line = [Printf ''64 bytes from %s: icmp_seq=%d ttl=%d time=%dms\<newline>''
                   [ArgS (IP (dst p)), ArgD (seqnum p), ArgD (rttl res),
                    ArgD (Milliseconds (Since (recv_now i) t))]]"
    using h assms(4,5,6) by (auto simp: handleMsg_def handleEchoReply_def)
  have f: "\<not> (bid = ident p \<and> bseq = seqnum p) \<longrightarrow>
         (\<forall>d' now'. handleMsg p (m\<lparr>Body := Echo bid bseq d'\<rparr>) (rttl res) now' = Inr line)"
    using h assms(4,5) by (auto simp: handleMsg_def handleEchoReply_def)
  have arm: "select_arm (msg_first i) (res # ch) = (Some res, ch)"
    using assms(1) by (simp add: select_arm_def)
  have body: "select_body p (Some res) (recv_now i) = Inr (line @ [TimerStop, Sleep (interval p)])"
    using h assms(2,3) by (simp add: select_body_def)
  have "pingLoop_for p (res # ch) (i # ins) =
        (case serr of
           Some e \<Rightarrow>
             (p1, (line @ [TimerStop, Sleep (interval p)]) @ [TimerReset (rttLimit p)] @ sent
                    @ [Printf ''Send error: %s.\<newline>'' [ArgS e], TimerStop],
              Returned None)
         | None \<Rightarrow>
             (case pingLoop_for p1 ch ins of
                (p'', tr, out) \<Rightarrow>
                  (p'', (line @ [TimerStop, Sleep (interval p)]) @ [TimerReset (rttLimit p)] @ sent @ tr,
                   out)))"
    by (rule pingLoop_for_step [OF arm body assms(7)])
  then show ?thesis using p s f by (intro exI [of _ line]) (simp split: option.splits prod.splits)
qed

text \<open>The amended C1 on a reply that matches identifier 5 and sequence 10, 50 ms after
  the time in its payload, and on a reply with sequence 11.\<close>

theorem C1_reply_ends_cycle_witness:
  "(\<exists>line. line = [Printf ''64 bytes from %s: icmp_seq=%d ttl=%d time=%dms\<newline>''
                     [ArgS ''192.0.2.1'', ArgD 10, ArgD 57, ArgD 50]]
     \<and> pingLoop_for (ex_session 10) [\<lparr>msg = Some (ex_reply 10), rttl = 57, err = None\<rparr>]
           [ex_pass True None]
         = (ex_session 11,
            line @ [TimerStop, Sleep 1000000000, TimerReset 2000000000,
                    WriteTo (ex_request 11 ex_t2) ex_dst],
            Waiting))
   \<and> (\<exists>line. list_all is_Printf line
     \<and> (\<forall>d' now'. handleMsg (ex_session 10)
            \<lparr>Type = ipv4_ICMPTypeEchoReply, Code = 0, Body = Echo 5 11 d'\<rparr> 57 now' = Inr line)
     \<and> pingLoop_for (ex_session 10) [\<lparr>msg = Some (ex_reply 11), rttl = 57, err = None\<rparr>]
           [ex_pass True None]
         = (ex_session 11,
            line @ [TimerStop, Sleep 1000000000, TimerReset 2000000000,
                    WriteTo (ex_request 11 ex_t2) ex_dst],
            Waiting))"
proof -
  have se: "sendEcho (ex_session 10) (send_now (ex_pass True None)) (write_err (ex_pass True None))
      = (ex_session 11, [WriteTo (ex_request 11 ex_t2) ex_dst], None)"
    by (simp add: sendEcho_def)
  have rtt: "Milliseconds (Since ex_t1 ex_t0) = 50"
    by (simp add: Milliseconds_def Since_def Sub_def int64_quo_def)
  have d: "(5 :: int64) = ident (ex_session 10) \<and> (10 :: int64) = seqnum (ex_session 10)
      \<longrightarrow> bytesToTime (timeToBytes ex_t0) = Inr ex_t0"
    using decode_example by simp
  have n: "(5 :: int64) = ident (ex_session 10) \<and> (11 :: int64) = seqnum (ex_session 10)
      \<longrightarrow> bytesToTime (timeToBytes ex_t0) = Inr ex_t0"
    by simp
  have a: "\<exists>line. line = [Printf ''64 bytes from %s: icmp_seq=%d ttl=%d time=%dms\<newline>''
                     [ArgS ''192.0.2.1'', ArgD 10, ArgD 57, ArgD 50]]
     \<and> pingLoop_for (ex_session 10) [\<lparr>msg = Some (ex_reply 10), rttl = 57, err = None\<rparr>]
           [ex_pass True None]
         = (ex_session 11,
            line @ [TimerStop, Sleep 1000000000, TimerReset 2000000000,
                    WriteTo (ex_request 11 ex_t2) ex_dst],
            Waiting)"
    using C1_reply_ends_cycle [of "ex_pass True None" "\<lparr>msg = Some (ex_reply 10), rttl = 57, err = None\<rparr>"
        "ex_reply 10" 5 10 "timeToBytes ex_t0" "ex_session 10" ex_t0 "ex_session 11"
        "[WriteTo (ex_request 11 ex_t2) ex_dst]" None "[]" "[]", OF _ _ _ _ _ d se]
    by (simp add: rtt)
  have b: "\<exists>line. list_all is_Printf line
     \<and> (\<forall>d' now'. handleMsg (ex_session 10)
            \<lparr>Type = ipv4_ICMPTypeEchoReply, Code = 0, Body = Echo 5 11 d'\<rparr> 57 now' = Inr line)
     \<and> pingLoop_for (ex_session 10) [\<lparr>msg = Some (ex_reply 11), rttl = 57, err = None\<rparr>]
           [ex_pass True None]
         = (ex_session 11,
            line @ [TimerStop, Sleep 1000000000, TimerReset 2000000000,
                    WriteTo (ex_request 11 ex_t2) ex_dst],
            Waiting)"
    using C1_reply_ends_cycle [of "ex_pass True None" "\<lparr>msg = Some (ex_reply 11), rttl = 57, err = None\<rparr>"
        "ex_reply 11" 5 11 "timeToBytes ex_t0" "ex_session 10" ex_t0 "ex_session 11"
        "[WriteTo (ex_request 11 ex_t2) ex_dst]" None "[]" "[]", OF _ _ _ _ _ n se]
    by simp
  show ?thesis using a b by blast
qed

text \<open>
  C1, as stated, fails. The session waits for identifier 5 and sequence 10; an echo reply
  with sequence 11 arrives first. The success line is printed for it (with time 0), the
  timer is stopped, the loop sleeps and sends the next request: the pass is over.
\<close>

theorem C1_counterexample:
  "pingLoop_for (ex_session 10) [\<lparr>msg = Some (ex_reply 11), rttl = 57, err = None\<rparr>] [ex_pass True None]
   = (ex_session 11,
      [Printf ''64 bytes from %s: icmp_seq=%d ttl=%d time=%dms\<newline>''
         [ArgS ''192.0.2.1'', ArgD 10, ArgD 57, ArgD 0],
       TimerStop, Sleep 1000000000, TimerReset 2000000000,
       WriteTo (ex_request 11 ex_t2) ex_dst],
      Waiting)"
  by (simp add: select_arm_def select_body_def handleMsg_def handleEchoReply_def sendEcho_def
      Milliseconds_def int64_quo_def)

text \<open>
  C2. The first \<^verbatim>\<open>sendEcho\<close> inside the loop fails. The loop ends, but
  \<^verbatim>\<open>pingLoop\<close> returns \<^verbatim>\<open>nil\<close>: \<^verbatim>\<open>main\<close> does not print the error with
  \<^verbatim>\<open>Println\<close> and the process ends with status 0, where the claim has the error
  returned and status 1.
\<close>

theorem C2_send_failure_exits_zero:
  "main ''example.com'' False 100 (Inr ex_dst) None 5 10 (\<lambda>proto bytes. Inl ''unused'') [] ex_t0 None
     [ex_pass False (Some ''sendto: network is unreachable'')]
   = ([Printf ''PING %s, IP version: %s, ttl: %d.\<newline>''
         [ArgS ''example.com'', ArgS ''IPv4'', ArgD 100],
       Go_recvEchoReply,
       WriteTo (ex_request 11 ex_t0) ex_dst,
       NewTimer 2000000000,
       Printf ''unreachable: %s.\<newline>'' [ArgS ''192.0.2.1''],
       TimerReset 2000000000,
       WriteTo (ex_request 12 ex_t2) ex_dst,
       Printf ''Send error: %s.\<newline>'' [ArgS ''Send echo error: sendto: network is unreachable''],
       TimerStop],
      Exited 0)"
  by (simp add: main_def printSetup_def newPingProc_def pingLoop_def sendEcho_def
      select_arm_def select_body_def)

text \<open>
  C3 (amended). In both programs the receiver sends one value on the channel for each
  datagram read and parsed (in the dual-stack program the message with the TTL or hop
  limit of the read, in \<^verbatim>\<open>main.go\<close> the buffer of an echo reply, or an error for
  another type) and reads on, until the first read or parse that fails: it then sends
  that one error, its text behind \<^verbatim>\<open>Send echo error: \<close>, and returns, so what it
  sends does not depend on the reads after it. In the dual-stack program at most one
  value with an error is sent. Once the channel delivers nothing more, every pass of the
  loop takes the timer case, whatever the timing.
\<close>

theorem C3_receiver_stops_at_first_error:
  "recvEchoReply p parse (pre @ ReadErr e # rest)
     = (if snd (recvEchoReply p parse pre) then recvEchoReply p parse pre
        else (fst (recvEchoReply p parse pre)
                @ [\<lparr>msg = None, rttl = - 1, err = Some (''Send echo error: '' @ e)\<rparr>], True))
   \<and> (parse (if isIPv6 p then Protocol ipv6_ICMPTypeEchoReply
               else Protocol ipv4_ICMPTypeEchoReply) b = Inl e1 \<longrightarrow>
       recvEchoReply p parse (pre @ ReadOk b cm # rest)
       = (if snd (recvEchoReply p parse pre) then recvEchoReply p parse pre
          else (fst (recvEchoReply p parse pre)
                  @ [\<lparr>msg = None, rttl = - 1, err = Some (''Send echo error: '' @ e1)\<rparr>], True)))
   \<and> (parse (if isIPv6 p then Protocol ipv6_ICMPTypeEchoReply
               else Protocol ipv4_ICMPTypeEchoReply) b2 = Inr m \<longrightarrow>
       recvEchoReply p parse (ReadOk b2 cm2 # reads)
       = (\<lparr>msg = Some m, rttl = (case cm2 of Some h \<Rightarrow> h | None \<Rightarrow> 0), err = None\<rparr>
            # fst (recvEchoReply p parse reads),
          snd (recvEchoReply p parse reads)))
   \<and> recvEchoReply p parse [] = ([], False)
   \<and> length (filter (\<lambda>r. err r \<noteq> None) (fst (recvEchoReply p parse reads))) \<le> 1
   \<and> pingLoop_for p [] ins = pingLoop_for p [] (map (\<lambda>i. i\<lparr>msg_first := False\<rparr>) ins)
   \<and> recvEchoReply_v4 parse (pre @ ReadErr e # rest)
     = (if snd (recvEchoReply_v4 parse pre) then recvEchoReply_v4 parse pre
        else (fst (recvEchoReply_v4 parse pre)
                @ [\<lparr>bytes_v4 = [], err_v4 = Some (''Send echo error: '' @ e)\<rparr>], True))
   \<and> (parse protoNum_v4 b = Inl e1 \<longrightarrow>
       recvEchoReply_v4 parse (pre @ ReadOk b cm # rest)
       = (if snd (recvEchoReply_v4 parse pre) then recvEchoReply_v4 parse pre
          else (fst (recvEchoReply_v4 parse pre)
                  @ [\<lparr>bytes_v4 = [], err_v4 = Some (''Send echo error: '' @ e1)\<rparr>], True)))
   \<and> (parse protoNum_v4 b2 = Inr m \<longrightarrow>
       recvEchoReply_v4 parse (ReadOk b2 cm2 # reads)
       = ((if Type m = ipv4_ICMPTypeEchoReply then \<lparr>bytes_v4 = b2, err_v4 = None\<rparr>
           else \<lparr>bytes_v4 = [], err_v4 = Some ''Send echo error: not echo reply message type''\<rparr>)
            # fst (recvEchoReply_v4 parse reads),
          snd (recvEchoReply_v4 parse reads)))
   \<and> recvEchoReply_v4 parse [] = ([], False)
   \<and> pingLoop_for_v4 parse q [] ins = pingLoop_for_v4 parse q [] (map (\<lambda>i. i\<lparr>msg_first := False\<rparr>) ins)"
proof -
  let ?proto = "if isIPv6 p then Protocol ipv6_ICMPTypeEchoReply else Protocol ipv4_ICMPTypeEchoReply"
  have r1: "recvEchoReply p parse (pre @ ReadErr e # rest)
     = (if snd (recvEchoReply p parse pre) then recvEchoReply p parse pre
        else (fst (recvEchoReply p parse pre)
                @ [\<lparr>msg = None, rttl = - 1, err = Some (''Send echo error: '' @ e)\<rparr>], True))"
  proof (induction pre)
    case Nil
    then show ?case by simp
  next
    case (Cons a pre)
    then show ?case by (cases a) (auto simp: Let_def split: sum.splits prod.splits)
  qed
  have r2: "recvEchoReply p parse (pre @ ReadOk b cm # rest)
     = (if snd (recvEchoReply p parse pre) then recvEchoReply p parse pre
        else (fst (recvEchoReply p parse pre)
                @ [\<lparr>msg = None, rttl = - 1, err = Some (''Send echo error: '' @ e1)\<rparr>], True))"
    if "parse ?proto b = Inl e1"
  proof (induction pre)
    case Nil
    then show ?case using that by (simp add: Let_def)
  next
    case (Cons a pre)
    then show ?case by (cases a) (auto simp: Let_def split: sum.splits prod.splits)
  qed
  have r3: "recvEchoReply p parse (ReadOk b2 cm2 # reads)
     = (\<lparr>msg = Some m, rttl = (case cm2 of Some h \<Rightarrow> h | None \<Rightarrow> 0), err = None\<rparr>
          # fst (recvEchoReply p parse reads),
        snd (recvEchoReply p parse reads))"
    if "parse ?proto b2 = Inr m"
    using that by (simp add: Let_def split: prod.splits)
  have r4: "length (filter (\<lambda>r. err r \<noteq> None) (fst (recvEchoReply p parse reads))) \<le> 1"
  proof (induction reads)
    case Nil
    then show ?case by simp
  next
    case (Cons a reads)
    then show ?case by (cases a) (auto simp: Let_def split: sum.splits prod.splits)
  qed
  have v1: "recvEchoReply_v4 parse (pre @ ReadErr e # rest)
     = (if snd (recvEchoReply_v4 parse pre) then recvEchoReply_v4 parse pre
        else (fst (recvEchoReply_v4 parse pre)
                @ [\<lparr>bytes_v4 = [], err_v4 = Some (''Send echo error: '' @ e)\<rparr>], True))"
  proof (induction pre)
    case Nil
    then show ?case by simp
  next
    case (Cons a pre)
    then show ?case by (cases a) (auto split: sum.splits prod.splits)
  qed
  have v2: "recvEchoReply_v4 parse (pre @ ReadOk b cm # rest)
     = (if snd (recvEchoReply_v4 parse pre) then recvEchoReply_v4 parse pre
        else (fst (recvEchoReply_v4 parse pre)
                @ [\<lparr>bytes_v4 = [], err_v4 = Some (''Send echo error: '' @ e1)\<rparr>], True))"
    if "parse protoNum_v4 b = Inl e1"
  proof (induction pre)
    case Nil
    then show ?case using that by simp
  next
    case (Cons a pre)
    then show ?case by (cases a) (auto split: sum.splits prod.splits)
  qed
  have v3: "recvEchoReply_v4 parse (ReadOk b2 cm2 # reads)
     = ((if Type m = ipv4_ICMPTypeEchoReply then \<lparr>bytes_v4 = b2, err_v4 = None\<rparr>
         else \<lparr>bytes_v4 = [], err_v4 = Some ''Send echo error: not echo reply message type''\<rparr>)
          # fst (recvEchoReply_v4 parse reads),
        snd (recvEchoReply_v4 parse reads))"
    if "parse protoNum_v4 b2 = Inr m"
    using that by (simp split: prod.splits)
  have l1: "pingLoop_for p [] ins = pingLoop_for p [] (map (\<lambda>i. i\<lparr>msg_first := False\<rparr>) ins)"
  proof (induction ins arbitrary: p)
    case Nil
    then show ?case by simp
  next
    case (Cons i ins)
    then show ?case
      by (simp add: select_arm_def split: sum.splits prod.splits option.splits)
  qed
  have l2: "pingLoop_for_v4 parse q [] ins
      = pingLoop_for_v4 parse q [] (map (\<lambda>i. i\<lparr>msg_first := False\<rparr>) ins)"
  proof (induction ins arbitrary: q)
    case Nil
    then show ?case by simp
  next
    case (Cons i ins)
    then show ?case
      by (simp add: select_arm_def split: sum.splits prod.splits option.splits)
  qed
  show ?thesis
    using r1 r2 r3 r4 v1 v2 v3 l1 l2 by simp
qed

text \<open>The amended C3 on one good read followed by a failing read, and followed by a
  buffer that does not parse, in both programs.\<close>

theorem C3_receiver_stops_at_first_error_witness:
  "recvEchoReply (ex_session 10)
      (\<lambda>proto bytes. if bytes = [] then Inl ''message too short'' else Inr (ex_reply 10))
      ([ReadOk [0] (Some 57)] @ ReadErr ''closed'' # [ReadErr ''closed'', ReadOk [0] None])
     = ([\<lparr>msg = Some (ex_reply 10), rttl = 57, err = None\<rparr>,
         \<lparr>msg = None, rttl = - 1, err = Some ''Send echo error: closed''\<rparr>], True)
   \<and> recvEchoReply (ex_session 10)
      (\<lambda>proto bytes. if bytes = [] then Inl ''message too short'' else Inr (ex_reply 10))
      ([ReadOk [0] (Some 57)] @ ReadOk [] None # [ReadErr ''closed'', ReadOk [0] None])
     = ([\<lparr>msg = Some (ex_reply 10), rttl = 57, err = None\<rparr>,
         \<lparr>msg = None, rttl = - 1, err = Some ''Send echo error: message too short''\<rparr>], True)
   \<and> recvEchoReply_v4
      (\<lambda>proto bytes. if bytes = [] then Inl ''message too short'' else Inr (ex_reply 10))
      ([ReadOk [0] (Some 57)] @ ReadErr ''closed'' # [ReadErr ''closed'', ReadOk [0] None])
     = ([\<lparr>bytes_v4 = [0], err_v4 = None\<rparr>,
         \<lparr>bytes_v4 = [], err_v4 = Some ''Send echo error: closed''\<rparr>], True)
   \<and> recvEchoReply_v4
      (\<lambda>proto bytes. if bytes = [] then Inl ''message too short'' else Inr (ex_reply 10))
      ([ReadOk [0] (Some 57)] @ ReadOk [] None # [ReadErr ''closed'', ReadOk [0] None])
     = ([\<lparr>bytes_v4 = [0], err_v4 = None\<rparr>,
         \<lparr>bytes_v4 = [], err_v4 = Some ''Send echo error: message too short''\<rparr>], True)"
  using C3_receiver_stops_at_first_error [where p = "ex_session 10"
      and parse = "\<lambda>proto bytes. if bytes = [] then Inl ''message too short'' else Inr (ex_reply 10)"
      and pre = "[ReadOk [0] (Some 57)]" and e = "''closed''"
      and rest = "[ReadErr ''closed'', ReadOk [0] None]"
      and b = "[]" and ?e1.0 = "''message too short''" and cm = None
      and ?b2.0 = "[0]" and m = "ex_reply 10" and ?cm2.0 = "Some 57" and reads = "[]"
      and ins = "[]" and q = "ex_session_v4 10"]
  by simp

text \<open>
  C3, as stated, fails. Every read of the connection fails with the same error. The first
  pass reports it; in the second pass the channel delivers nothing, although the pass
  would take a message first, and the timer case reports the destination unreachable.
\<close>

theorem C3_counterexample:
  "pingLoop (ex_session 10) (\<lambda>proto bytes. Inl ''unused'')
     [ReadErr ''use of closed network connection'', ReadErr ''use of closed network connection'']
     ex_t0 None [ex_pass True None, ex_pass True None]
   = (ex_session 13,
      [Go_recvEchoReply,
       WriteTo (ex_request 11 ex_t0) ex_dst,
       NewTimer 2000000000,
       Printf ''Error during message receiving: %s.\<newline>''
         [ArgS ''Send echo error: use of closed network connection''],
       TimerStop, Sleep 1000000000, TimerReset 2000000000,
       WriteTo (ex_request 12 ex_t2) ex_dst,
       Printf ''unreachable: %s.\<newline>'' [ArgS ''192.0.2.1''],
       TimerReset 2000000000,
       WriteTo (ex_request 13 ex_t2) ex_dst],
      Waiting)"
  by (simp add: pingLoop_def sendEcho_def select_arm_def select_body_def)

text \<open>
  C4 (amended). In the dual-stack program \<^verbatim>\<open>sendEcho\<close> increments the sequence
  number once and hands one request to \<^verbatim>\<open>WriteTo\<close>, which carries the incremented
  number, whether or not the write succeeds; over a whole run the sequence number grows
  by the number of requests, and the requests carry the numbers counted up by one per
  request. In \<^verbatim>\<open>main.go\<close>, \<^verbatim>\<open>sendEcho\<close> leaves the session as it is and its
  request carries the current number; over a whole run the sequence number grows by the
  number of passes that took the timer case, and the requests carry the numbers counted
  up by one per timeout, so a request after a received message carries the number of the
  request before it.
\<close>

theorem C4_increment_per_send:
  "fst (sendEcho p now w) = p\<lparr>seqnum := seqnum p + 1\<rparr>
   \<and> sends (fst (snd (sendEcho p now w))) = 1
   \<and> request_seqs (fst (snd (sendEcho p now w))) = [seqnum p + 1]
   \<and> seqnum (fst (pingLoop p parse reads now0 werr0 ins))
       = seqnum p + of_nat (sends (fst (snd (pingLoop p parse reads now0 werr0 ins))))
   \<and> request_seqs (fst (snd (pingLoop p parse reads now0 werr0 ins)))
       = counted_per_send (seqnum p) (fst (snd (pingLoop p parse reads now0 werr0 ins)))
   \<and> fst (sendEcho_v4 q now w) = q
   \<and> sends (fst (snd (sendEcho_v4 q now w))) = 1
   \<and> request_seqs (fst (snd (sendEcho_v4 q now w))) = [seqnum q]
   \<and> seqnum (fst (pingLoop_v4 q parse reads now0 werr0 ins))
       = seqnum q + of_nat (timeouts (fst (snd (pingLoop_v4 q parse reads now0 werr0 ins))))
   \<and> request_seqs (fst (snd (pingLoop_v4 q parse reads now0 werr0 ins)))
       = counted_per_timeout (seqnum q) (fst (snd (pingLoop_v4 q parse reads now0 werr0 ins)))"
proof -
  obtain p' tr out where a: "pingLoop p parse reads now0 werr0 ins = (p', tr, out)"
    by (cases "pingLoop p parse reads now0 werr0 ins")
  obtain q' tr' out' where b: "pingLoop_v4 q parse reads now0 werr0 ins = (q', tr', out')"
    by (cases "pingLoop_v4 q parse reads now0 werr0 ins")
  show ?thesis
    using pingLoop_seqnum [OF a] pingLoop_v4_seqnum [OF b]
      pingLoop_request_seqs [OF a] pingLoop_v4_request_seqs [OF b] a b
    by (simp add: sendEcho_def sendEcho_v4_def Let_def)
qed

text \<open>
  C4, as stated, fails in \<^verbatim>\<open>main.go\<close>. The first request carries sequence 10; its
  reply arrives; the next request carries sequence 10 again: two requests sent and no
  increment.
\<close>

theorem C4_counterexample:
  "pingLoop_v4 (ex_session_v4 10) (ex_parse (ex_reply 10)) [ReadOk [] None] ex_t0 None [ex_pass True None]
   = (ex_session_v4 10,
      [Go_recvEchoReply,
       WriteTo (ex_request 10 ex_t0) ex_dst,
       NewTimer 2000000000,
       Printf ''64 bytes from %s: time=%v\<newline>'' [ArgS ''192.0.2.1'', ArgV 50000000],
       TimerStop, Sleep 1300000000, TimerReset 2000000000,
       WriteTo (ex_request 10 ex_t2) ex_dst],
      Waiting)"
  by (simp add: pingLoop_v4_def sendEcho_v4_def select_arm_def select_body_v4_def handleRecv_v4_def
      decode_example Since_def Sub_def ipv4_ICMPTypeEchoReply_def)

text \<open>
  C6. In both programs, a pass that takes the timer case prints the unreachable line,
  re-arms the timer and sends the next request, with no stop of the timer and no sleep in
  between. A pass that takes the channel case (a message or a receive error) prints, then
  stops the timer, sleeps for the interval, re-arms the timer and sends the next request.
\<close>

theorem C6_pause_after_message_only:
  "(select_arm (msg_first i) ch = (None, ch') \<longrightarrow>
      (\<exists>m p' rest out. pingLoop_for p ch (i # ins)
         = (p', [Printf ''unreachable: %s.\<newline>'' [ArgS (IP (dst p))],
                 TimerReset (rttLimit p), WriteTo m (dst p)] @ rest, out)))
   \<and> (select_arm (msg_first j) chj = (Some res, chj')
        \<and> select_body pj (Some res) (recv_now j) = Inr acts \<longrightarrow>
      (\<exists>hs m p' rest out. list_all is_Printf hs
         \<and> pingLoop_for pj chj (j # insj)
           = (p', hs @ [TimerStop, Sleep (interval pj), TimerReset (rttLimit pj), WriteTo m (dst pj)]
                     @ rest, out)))
   \<and> (select_arm (msg_first k) chk = (None, chk') \<longrightarrow>
      (\<exists>m q' rest out. pingLoop_for_v4 parse q chk (k # insk)
         = (q', [Printf ''unreachable: %s.\<newline>'' [ArgS (IP (dst q))],
                 TimerReset (rttLimit q), WriteTo m (dst q)] @ rest, out)))
   \<and> (select_arm (msg_first l) chl = (Some res4, chl')
        \<and> select_body_v4 parse4 ql (Some res4) (recv_now l) = Inr (q1, acts4) \<longrightarrow>
      (\<exists>hs m q' rest out. list_all is_Printf hs
         \<and> pingLoop_for_v4 parse4 ql chl (l # insl)
           = (q', hs @ [TimerStop, Sleep (interval ql), TimerReset (rttLimit ql), WriteTo m (dst ql)]
                     @ rest, out)))"
proof (intro conjI impI)
  assume a: "select_arm (msg_first i) ch = (None, ch')"
  have b: "select_body p None (recv_now i)
      = Inr [Printf ''unreachable: %s.\<newline>'' [ArgS (IP (dst p))]]"
    by (simp add: select_body_def)
  show "\<exists>m p' rest out. pingLoop_for p ch (i # ins)
         = (p', [Printf ''unreachable: %s.\<newline>'' [ArgS (IP (dst p))],
                 TimerReset (rttLimit p), WriteTo m (dst p)] @ rest, out)"
    using pingLoop_for_pass_shape [OF a b, of ins] by simp
next
  assume a: "select_arm (msg_first j) chj = (Some res, chj')
        \<and> select_body pj (Some res) (recv_now j) = Inr acts"
  then obtain hs where hs: "acts = hs @ [TimerStop, Sleep (interval pj)]" "list_all is_Printf hs"
    using select_body_shape [of pj "Some res" "recv_now j" acts] by auto
  show "\<exists>hs m p' rest out. list_all is_Printf hs
         \<and> pingLoop_for pj chj (j # insj)
           = (p', hs @ [TimerStop, Sleep (interval pj), TimerReset (rttLimit pj), WriteTo m (dst pj)]
                     @ rest, out)"
    using pingLoop_for_pass_shape [of j chj "Some res" chj' pj acts insj] a hs by auto
next
  assume a: "select_arm (msg_first k) chk = (None, chk')"
  have b: "select_body_v4 parse q None (recv_now k)
      = Inr (q\<lparr>seqnum := seqnum q + 1\<rparr>, [Printf ''unreachable: %s.\<newline>'' [ArgS (IP (dst q))]])"
    by (simp add: select_body_v4_def)
  show "\<exists>m q' rest out. pingLoop_for_v4 parse q chk (k # insk)
         = (q', [Printf ''unreachable: %s.\<newline>'' [ArgS (IP (dst q))],
                 TimerReset (rttLimit q), WriteTo m (dst q)] @ rest, out)"
    using pingLoop_for_v4_pass_shape [OF a b, of insk] by simp
next
  assume a: "select_arm (msg_first l) chl = (Some res4, chl')
        \<and> select_body_v4 parse4 ql (Some res4) (recv_now l) = Inr (q1, acts4)"
  then obtain hs where hs: "acts4 = hs @ [TimerStop, Sleep (interval ql)]" "list_all is_Printf hs"
    using select_body_v4_shape [of parse4 ql "Some res4" "recv_now l" q1 acts4] by auto
  show "\<exists>hs m q' rest out. list_all is_Printf hs
         \<and> pingLoop_for_v4 parse4 ql chl (l # insl)
           = (q', hs @ [TimerStop, Sleep (interval ql), TimerReset (rttLimit ql), WriteTo m (dst ql)]
                     @ rest, out)"
    using pingLoop_for_v4_pass_shape [of l chl "Some res4" chl' parse4 ql q1 acts4 insl] a hs by auto
qed

text \<open>C6 on four passes: a timeout and a receive error in the dual-stack program, a
  timeout and a reply in \<^verbatim>\<open>main.go\<close>.\<close>

theorem C6_pause_after_message_only_witness:
  "select_arm (msg_first (ex_pass False None)) [\<lparr>msg = Some (ex_reply 10), rttl = 57, err = None\<rparr>]
     = (None, [\<lparr>msg = Some (ex_reply 10), rttl = 57, err = None\<rparr>])
   \<and> (\<exists>m p' rest out.
        pingLoop_for (ex_session 10) [\<lparr>msg = Some (ex_reply 10), rttl = 57, err = None\<rparr>]
          [ex_pass False None]
        = (p', [Printf ''unreachable: %s.\<newline>'' [ArgS (IP (dst (ex_session 10)))],
                TimerReset (rttLimit (ex_session 10)), WriteTo m (dst (ex_session 10))] @ rest, out))
   \<and> select_arm (msg_first (ex_pass True None))
        [\<lparr>msg = None, rttl = - 1, err = Some ''Send echo error: closed''\<rparr>]
     = (Some \<lparr>msg = None, rttl = - 1, err = Some ''Send echo error: closed''\<rparr>, [])
   \<and> select_body (ex_session 10)
        (Some \<lparr>msg = None, rttl = - 1, err = Some ''Send echo error: closed''\<rparr>)
        (recv_now (ex_pass True None))
     = Inr [Printf ''Error during message receiving: %s.\<newline>'' [ArgS ''Send echo error: closed''],
            TimerStop, Sleep 1000000000]
   \<and> (\<exists>hs m p' rest out. list_all is_Printf hs
        \<and> pingLoop_for (ex_session 10)
             [\<lparr>msg = None, rttl = - 1, err = Some ''Send echo error: closed''\<rparr>] [ex_pass True None]
          = (p', hs @ [TimerStop, Sleep (interval (ex_session 10)),
                       TimerReset (rttLimit (ex_session 10)), WriteTo m (dst (ex_session 10))]
                    @ rest, out))
   \<and> select_arm (msg_first (ex_pass True None)) ([] :: recvResult_v4 list) = (None, [])
   \<and> (\<exists>m q' rest out.
        pingLoop_for_v4 (ex_parse (ex_reply 10)) (ex_session_v4 10) [] [ex_pass True None]
        = (q', [Printf ''unreachable: %s.\<newline>'' [ArgS (IP (dst (ex_session_v4 10)))],
                TimerReset (rttLimit (ex_session_v4 10)), WriteTo m (dst (ex_session_v4 10))]
               @ rest, out))
   \<and> select_arm (msg_first (ex_pass True None)) [\<lparr>bytes_v4 = [], err_v4 = None\<rparr>]
     = (Some \<lparr>bytes_v4 = [], err_v4 = None\<rparr>, [])
   \<and> select_body_v4 (ex_parse (ex_reply 10)) (ex_session_v4 10)
        (Some \<lparr>bytes_v4 = [], err_v4 = None\<rparr>) (recv_now (ex_pass True None))
     = Inr (ex_session_v4 10,
            [Printf ''64 bytes from %s: time=%v\<newline>'' [ArgS ''192.0.2.1'', ArgV 50000000],
             TimerStop, Sleep 1300000000])
   \<and> (\<exists>hs m q' rest out. list_all is_Printf hs
        \<and> pingLoop_for_v4 (ex_parse (ex_reply 10)) (ex_session_v4 10)
             [\<lparr>bytes_v4 = [], err_v4 = None\<rparr>] [ex_pass True None]
          = (q', hs @ [TimerStop, Sleep (interval (ex_session_v4 10)),
                       TimerReset (rttLimit (ex_session_v4 10)), WriteTo m (dst (ex_session_v4 10))]
                    @ rest, out))"
proof -
  have a: "select_arm (msg_first (ex_pass False None)) [\<lparr>msg = Some (ex_reply 10), rttl = 57, err = None\<rparr>]
     = (None, [\<lparr>msg = Some (ex_reply 10), rttl = 57, err = None\<rparr>])"
    by (simp add: select_arm_def)
  have b: "select_arm (msg_first (ex_pass True None))
        [\<lparr>msg = None, rttl = - 1, err = Some ''Send echo error: closed''\<rparr>]
     = (Some \<lparr>msg = None, rttl = - 1, err = Some ''Send echo error: closed''\<rparr>, [])"
    by (simp add: select_arm_def)
  have c: "select_body (ex_session 10)
        (Some \<lparr>msg = None, rttl = - 1, err = Some ''Send echo error: closed''\<rparr>)
        (recv_now (ex_pass True None))
     = Inr [Printf ''Error during message receiving: %s.\<newline>'' [ArgS ''Send echo error: closed''],
            TimerStop, Sleep 1000000000]"
    by (simp add: select_body_def)
  have d: "select_arm (msg_first (ex_pass True None)) ([] :: recvResult_v4 list) = (None, [])"
    by (simp add: select_arm_def)
  have e: "select_arm (msg_first (ex_pass True None)) [\<lparr>bytes_v4 = [], err_v4 = None\<rparr>]
     = (Some \<lparr>bytes_v4 = [], err_v4 = None\<rparr>, [])"
    by (simp add: select_arm_def)
  have f: "select_body_v4 (ex_parse (ex_reply 10)) (ex_session_v4 10)
        (Some \<lparr>bytes_v4 = [], err_v4 = None\<rparr>) (recv_now (ex_pass True None))
     = Inr (ex_session_v4 10,
            [Printf ''64 bytes from %s: time=%v\<newline>'' [ArgS ''192.0.2.1'', ArgV 50000000],
             TimerStop, Sleep 1300000000])"
    by (simp add: select_body_v4_def handleRecv_v4_def decode_example Since_def Sub_def)
  note T = C6_pause_after_message_only
      [of "ex_pass False None" "[\<lparr>msg = Some (ex_reply 10), rttl = 57, err = None\<rparr>]"
          "[\<lparr>msg = Some (ex_reply 10), rttl = 57, err = None\<rparr>]" "ex_session 10" "[]"
          "ex_pass True None" "[\<lparr>msg = None, rttl = - 1, err = Some ''Send echo error: closed''\<rparr>]"
          "\<lparr>msg = None, rttl = - 1, err = Some ''Send echo error: closed''\<rparr>" "[]"
          "ex_session 10"
          "[Printf ''Error during message receiving: %s.\<newline>'' [ArgS ''Send echo error: closed''],
            TimerStop, Sleep 1000000000]" "[]"
          "ex_pass True None" "[]" "[]" "ex_parse (ex_reply 10)" "ex_session_v4 10" "[]"
          "ex_pass True None" "[\<lparr>bytes_v4 = [], err_v4 = None\<rparr>]"
          "\<lparr>bytes_v4 = [], err_v4 = None\<rparr>" "[]" "ex_parse (ex_reply 10)" "ex_session_v4 10"
          "ex_session_v4 10"
          "[Printf ''64 bytes from %s: time=%v\<newline>'' [ArgS ''192.0.2.1'', ArgV 50000000],
             TimerStop, Sleep 1300000000]" "[]"]
  show ?thesis
    using T a b c d e f by blast
qed

text \<open>
  C7 (amended). Dual-stack program: after \<open>N\<close> completed passes of the loop the
  sequence number is congruent modulo \<open>2 ^ 16\<close> to the value at the entry of the loop
  plus \<open>N\<close>, however the passes ended. \<^verbatim>\<open>main.go\<close>: it is congruent modulo
  \<open>2 ^ 16\<close> to the value at the entry plus the number of passes that took the timer
  case.
\<close>

theorem C7_seqnum_after_cycles:
  "(pingLoop_for p ch ins = (p', tr, Waiting)
      \<longrightarrow> unat (seqnum p') mod 2 ^ 16 = (unat (seqnum p) + length ins) mod 2 ^ 16)
   \<and> (pingLoop_for_v4 parse q ch4 ins4 = (q', tr4, Waiting)
      \<longrightarrow> unat (seqnum q') mod 2 ^ 16 = (unat (seqnum q) + timeouts tr4) mod 2 ^ 16)"
proof (intro conjI impI)
  assume a: "pingLoop_for p ch ins = (p', tr, Waiting)"
  then have "seqnum p' = seqnum p + of_nat (length ins)"
    using pingLoop_for_seqnum [of p ch ins p' tr Waiting] pingLoop_for_Waiting_sends [of p ch ins p' tr]
    by simp
  then show "unat (seqnum p') mod 2 ^ 16 = (unat (seqnum p) + length ins) mod 2 ^ 16"
    by (simp only: unat_add_of_nat_mod16)
next
  assume a: "pingLoop_for_v4 parse q ch4 ins4 = (q', tr4, Waiting)"
  then have "seqnum q' = seqnum q + of_nat (timeouts tr4)"
    using pingLoop_for_v4_seqnum [of parse q ch4 ins4 q' tr4 Waiting] by simp
  then show "unat (seqnum q') mod 2 ^ 16 = (unat (seqnum q) + timeouts tr4) mod 2 ^ 16"
    by (simp only: unat_add_of_nat_mod16)
qed

text \<open>The amended C7 on two passes from sequence 65535, across \<open>2 ^ 16\<close>: two timeouts
  in the dual-stack program, a reply and a timeout in \<^verbatim>\<open>main.go\<close>.\<close>

theorem C7_seqnum_after_cycles_witness:
  "pingLoop_for (ex_session 65535) [] [ex_pass False None, ex_pass True None]
     = (ex_session 65537,
        [Printf ''unreachable: %s.\<newline>'' [ArgS ''192.0.2.1''], TimerReset 2000000000,
         WriteTo (ex_request 65536 ex_t2) ex_dst,
         Printf ''unreachable: %s.\<newline>'' [ArgS ''192.0.2.1''], TimerReset 2000000000,
         WriteTo (ex_request 65537 ex_t2) ex_dst],
        Waiting)
   \<and> unat (seqnum (ex_session 65537)) mod 2 ^ 16
       = (unat (seqnum (ex_session 65535)) + length [ex_pass False None, ex_pass True None]) mod 2 ^ 16
   \<and> pingLoop_for_v4 (ex_parse (ex_reply 65535)) (ex_session_v4 65535)
        [\<lparr>bytes_v4 = [], err_v4 = None\<rparr>] [ex_pass True None, ex_pass True None]
     = (ex_session_v4 65536,
        [Printf ''64 bytes from %s: time=%v\<newline>'' [ArgS ''192.0.2.1'', ArgV 50000000],
         TimerStop, Sleep 1300000000, TimerReset 2000000000,
         WriteTo (ex_request 65535 ex_t2) ex_dst,
         Printf ''unreachable: %s.\<newline>'' [ArgS ''192.0.2.1''], TimerReset 2000000000,
         WriteTo (ex_request 65536 ex_t2) ex_dst],
        Waiting)
   \<and> unat (seqnum (ex_session_v4 65536)) mod 2 ^ 16
       = (unat (seqnum (ex_session_v4 65535)) + 1) mod 2 ^ 16"
proof -
  have a: "pingLoop_for (ex_session 65535) [] [ex_pass False None, ex_pass True None]
     = (ex_session 65537,
        [Printf ''unreachable: %s.\<newline>'' [ArgS ''192.0.2.1''], TimerReset 2000000000,
         WriteTo (ex_request 65536 ex_t2) ex_dst,
         Printf ''unreachable: %s.\<newline>'' [ArgS ''192.0.2.1''], TimerReset 2000000000,
         WriteTo (ex_request 65537 ex_t2) ex_dst],
        Waiting)"
    by (simp add: select_arm_def select_body_def sendEcho_def)
  have b: "pingLoop_for_v4 (ex_parse (ex_reply 65535)) (ex_session_v4 65535)
        [\<lparr>bytes_v4 = [], err_v4 = None\<rparr>] [ex_pass True None, ex_pass True None]
     = (ex_session_v4 65536,
        [Printf ''64 bytes from %s: time=%v\<newline>'' [ArgS ''192.0.2.1'', ArgV 50000000],
         TimerStop, Sleep 1300000000, TimerReset 2000000000,
         WriteTo (ex_request 65535 ex_t2) ex_dst,
         Printf ''unreachable: %s.\<newline>'' [ArgS ''192.0.2.1''], TimerReset 2000000000,
         WriteTo (ex_request 65536 ex_t2) ex_dst],
        Waiting)"
    by (simp add: select_arm_def select_body_v4_def handleRecv_v4_def sendEcho_v4_def
        decode_example Since_def Sub_def)
  show ?thesis
    using C7_seqnum_after_cycles [where p = "ex_session 65535" and ch = "[]"
        and ins = "[ex_pass False None, ex_pass True None]" and p' = "ex_session 65537"
        and parse = "ex_parse (ex_reply 65535)" and q = "ex_session_v4 65535"
        and ?ch4.0 = "[\<lparr>bytes_v4 = [], err_v4 = None\<rparr>]"
        and ?ins4.0 = "[ex_pass True None, ex_pass True None]" and q' = "ex_session_v4 65536"] a b
    by simp
qed

text \<open>
  C7, as stated, fails. Dual-stack program, drawn sequence number 65535: after the first
  request and one pass the field holds 65537; no reduction modulo \<open>2 ^ 16\<close> takes
  place. \<^verbatim>\<open>main.go\<close>, sequence 10: after one pass that ended with a reply the field
  still holds 10.
\<close>

theorem C7_counterexample:
  "pingLoop (newPingProc 5 65535 ex_dst False 100) (\<lambda>proto bytes. Inl ''unused'') [] ex_t0 None
     [ex_pass False None]
   = (ex_session 65537,
      [Go_recvEchoReply,
       WriteTo (ex_request 65536 ex_t0) ex_dst,
       NewTimer 2000000000,
       Printf ''unreachable: %s.\<newline>'' [ArgS ''192.0.2.1''],
       TimerReset 2000000000,
       WriteTo (ex_request 65537 ex_t2) ex_dst],
      Waiting)
   \<and> unat (seqnum (ex_session 65537)) \<noteq> (65535 + 1) mod 2 ^ 16
   \<and> unat (seqnum (ex_session 65537)) \<noteq> (65535 + 2) mod 2 ^ 16
   \<and> pingLoop_for_v4 (ex_parse (ex_reply 10)) (ex_session_v4 10)
        [\<lparr>bytes_v4 = [], err_v4 = None\<rparr>] [ex_pass True None]
     = (ex_session_v4 10,
        [Printf ''64 bytes from %s: time=%v\<newline>'' [ArgS ''192.0.2.1'', ArgV 50000000],
         TimerStop, Sleep 1300000000, TimerReset 2000000000,
         WriteTo (ex_request 10 ex_t2) ex_dst],
        Waiting)
   \<and> unat (seqnum (ex_session_v4 10)) \<noteq> (10 + 1) mod 2 ^ 16"
  by (simp add: pingLoop_def newPingProc_def select_arm_def select_body_def sendEcho_def
      select_body_v4_def handleRecv_v4_def sendEcho_v4_def decode_example Since_def Sub_def)

text \<open>
  C8 (amended). Dual-stack program: for a reply that matches the session, the handler
  prints one line, \<^verbatim>\<open>64 bytes from <ip>: icmp_seq=<n> ttl=<hop> time=<ms>ms\<close>, with
  the session's sequence number and the round-trip time in whole milliseconds; in a pass
  of the loop that receives such a reply, \<^verbatim>\<open><hop>\<close> is the TTL or hop limit of the
  control message that came with the read of that datagram (0 when there was none), and
  the line is followed by the stop of the timer and the sleep. \<^verbatim>\<open>main.go\<close>: the
  handler, and the pass that receives the reply, print
  \<^verbatim>\<open>64 bytes from <ip>: time=<rtt>\<close>, the round-trip time as a duration, with no
  sequence number and no TTL.
\<close>

theorem C8_success_line:
  "(Body m = Echo (ident p) (seqnum p) d \<and> bytesToTime d = Inr t \<longrightarrow>
      handleEchoReply p m h now
        = Inr [Printf ''64 bytes from %s: icmp_seq=%d ttl=%d time=%dms\<newline>''
                 [ArgS (IP (dst p)), ArgD (seqnum p), ArgD h, ArgD (Milliseconds (Since now t))]]
      \<and> sprintf ''64 bytes from %s: icmp_seq=%d ttl=%d time=%dms\<newline>''
           [ArgS (IP (dst p)), ArgD (seqnum p), ArgD h, ArgD (Milliseconds (Since now t))]
        = Some (''64 bytes from '' @ IP (dst p) @ '': icmp_seq='' @ showInt (sint (seqnum p))
                @ '' ttl='' @ showInt (sint h)
                @ '' time='' @ showInt (sint (Milliseconds (Since now t))) @ ''ms\<newline>''))
   \<and> (parse (if isIPv6 p then Protocol ipv6_ICMPTypeEchoReply
               else Protocol ipv4_ICMPTypeEchoReply) b = Inr m
        \<and> (Type m = ipv4_ICMPTypeEchoReply \<or> Type m = ipv6_ICMPTypeEchoReply)
        \<and> Body m = Echo (ident p) (seqnum p) d \<and> bytesToTime d = Inr t \<and> msg_first i \<longrightarrow>
      (\<exists>p' rest out.
         pingLoop_for p (fst (recvEchoReply p parse (ReadOk b cm # reads))) (i # ins)
         = (p', Printf ''64 bytes from %s: icmp_seq=%d ttl=%d time=%dms\<newline>''
                  [ArgS (IP (dst p)), ArgD (seqnum p),
                   ArgD (case cm of Some hop \<Rightarrow> hop | None \<Rightarrow> 0),
                   ArgD (Milliseconds (Since (recv_now i) t))]
                # TimerStop # Sleep (interval p) # rest, out)))
   \<and> (parse4 protoNum_v4 bs = Inr m4 \<and> Body m4 = Echo (ident q) (seqnum q) d4
        \<and> bytesToTime d4 = Inr t4 \<longrightarrow>
      handleRecv_v4 parse4 q bs now4
        = Inr [Printf ''64 bytes from %s: time=%v\<newline>'' [ArgS (IP (dst q)), ArgV (Since now4 t4)]])
   \<and> (parse4 protoNum_v4 bs = Inr m4 \<and> Type m4 = ipv4_ICMPTypeEchoReply
        \<and> Body m4 = Echo (ident q) (seqnum q) d4 \<and> bytesToTime d4 = Inr t4 \<and> msg_first j \<longrightarrow>
      (\<exists>q' rest out.
         pingLoop_for_v4 parse4 q (fst (recvEchoReply_v4 parse4 (ReadOk bs cm4 # reads4))) (j # ins4)
         = (q', Printf ''64 bytes from %s: time=%v\<newline>''
                  [ArgS (IP (dst q)), ArgV (Since (recv_now j) t4)]
                # TimerStop # Sleep (interval q) # rest, out)))"
proof -
  have sp: "\<exists>p' rest out.
        pingLoop_for p (fst (recvEchoReply p parse (ReadOk b cm # reads))) (i # ins)
        = (p', Printf ''64 bytes from %s: icmp_seq=%d ttl=%d time=%dms\<newline>''
                 [ArgS (IP (dst p)), ArgD (seqnum p),
                  ArgD (case cm of Some h \<Rightarrow> h | None \<Rightarrow> 0),
                  ArgD (Milliseconds (Since (recv_now i) t))]
               # TimerStop # Sleep (interval p) # rest, out)"
    if pr: "parse (if isIPv6 p then Protocol ipv6_ICMPTypeEchoReply
                        else Protocol ipv4_ICMPTypeEchoReply) b = Inr m"
      and ty: "Type m = ipv4_ICMPTypeEchoReply \<or> Type m = ipv6_ICMPTypeEchoReply"
      and bo: "Body m = Echo (ident p) (seqnum p) d"
      and de: "bytesToTime d = Inr t"
      and mf: "msg_first i"
    for parse p b m d t i cm reads ins
  proof -
    define r where "r = \<lparr>msg = Some m, rttl = (case cm of Some h \<Rightarrow> h | None \<Rightarrow> 0), err = None\<rparr>"
    have ch: "fst (recvEchoReply p parse (ReadOk b cm # reads)) = r # fst (recvEchoReply p parse reads)"
      using pr by (simp add: r_def Let_def split: prod.splits)
    have arm: "select_arm (msg_first i) (r # fst (recvEchoReply p parse reads))
        = (Some r, fst (recvEchoReply p parse reads))"
      using mf by (simp add: select_arm_def)
    have body: "select_body p (Some r) (recv_now i)
        = Inr ([Printf ''64 bytes from %s: icmp_seq=%d ttl=%d time=%dms\<newline>''
                 [ArgS (IP (dst p)), ArgD (seqnum p),
                  ArgD (case cm of Some h \<Rightarrow> h | None \<Rightarrow> 0),
                  ArgD (Milliseconds (Since (recv_now i) t))]] @ [TimerStop, Sleep (interval p)])"
      using ty bo de by (auto simp: select_body_def handleMsg_def handleEchoReply_def r_def)
    show ?thesis
      using pingLoop_for_pass_shape [OF arm body, of ins] ch by auto
  qed
  have sp4: "\<exists>q' rest out.
        pingLoop_for_v4 parse q (fst (recvEchoReply_v4 parse (ReadOk b cm # reads))) (i # ins)
        = (q', Printf ''64 bytes from %s: time=%v\<newline>''
                 [ArgS (IP (dst q)), ArgV (Since (recv_now i) t)]
               # TimerStop # Sleep (interval q) # rest, out)"
    if pr: "parse protoNum_v4 b = Inr m"
      and ty: "Type m = ipv4_ICMPTypeEchoReply"
      and bo: "Body m = Echo (ident q) (seqnum q) d"
      and de: "bytesToTime d = Inr t"
      and mf: "msg_first i"
    for parse b m q d t i cm reads ins
  proof -
    define r where "r = \<lparr>bytes_v4 = b, err_v4 = None\<rparr>"
    have ch: "fst (recvEchoReply_v4 parse (ReadOk b cm # reads)) = r # fst (recvEchoReply_v4 parse reads)"
      using pr ty by (simp add: r_def split: prod.splits)
    have arm: "select_arm (msg_first i) (r # fst (recvEchoReply_v4 parse reads))
        = (Some r, fst (recvEchoReply_v4 parse reads))"
      using mf by (simp add: select_arm_def)
    have body: "select_body_v4 parse q (Some r) (recv_now i)
        = Inr (q, [Printf ''64 bytes from %s: time=%v\<newline>''
                 [ArgS (IP (dst q)), ArgV (Since (recv_now i) t)]] @ [TimerStop, Sleep (interval q)])"
      using pr bo de by (simp add: select_body_v4_def handleRecv_v4_def r_def)
    show ?thesis
      using pingLoop_for_v4_pass_shape [OF arm body, of ins] ch by auto
  qed
  show ?thesis
  proof (intro conjI impI)
    assume "Body m = Echo (ident p) (seqnum p) d \<and> bytesToTime d = Inr t"
    then show "handleEchoReply p m h now
          = Inr [Printf ''64 bytes from %s: icmp_seq=%d ttl=%d time=%dms\<newline>''
                   [ArgS (IP (dst p)), ArgD (seqnum p), ArgD h, ArgD (Milliseconds (Since now t))]]"
      by (simp add: handleEchoReply_def)
  next
    show "sprintf ''64 bytes from %s: icmp_seq=%d ttl=%d time=%dms\<newline>''
             [ArgS (IP (dst p)), ArgD (seqnum p), ArgD h, ArgD (Milliseconds (Since now t))]
          = Some (''64 bytes from '' @ IP (dst p) @ '': icmp_seq='' @ showInt (sint (seqnum p))
                  @ '' ttl='' @ showInt (sint h)
                  @ '' time='' @ showInt (sint (Milliseconds (Since now t))) @ ''ms\<newline>'')"
      by simp
  next
    assume "parse (if isIPv6 p then Protocol ipv6_ICMPTypeEchoReply
                 else Protocol ipv4_ICMPTypeEchoReply) b = Inr m
          \<and> (Type m = ipv4_ICMPTypeEchoReply \<or> Type m = ipv6_ICMPTypeEchoReply)
          \<and> Body m = Echo (ident p) (seqnum p) d \<and> bytesToTime d = Inr t \<and> msg_first i"
    then show "\<exists>p' rest out.
           pingLoop_for p (fst (recvEchoReply p parse (ReadOk b cm # reads))) (i # ins)
           = (p', Printf ''64 bytes from %s: icmp_seq=%d ttl=%d time=%dms\<newline>''
                    [ArgS (IP (dst p)), ArgD (seqnum p),
                     ArgD (case cm of Some hop \<Rightarrow> hop | None \<Rightarrow> 0),
                     ArgD (Milliseconds (Since (recv_now i) t))]
                  # TimerStop # Sleep (interval p) # rest, out)"
      using sp [of parse p b m d t i cm reads ins] by blast
  next
    assume "parse4 protoNum_v4 bs = Inr m4 \<and> Body m4 = Echo (ident q) (seqnum q) d4
          \<and> bytesToTime d4 = Inr t4"
    then show "handleRecv_v4 parse4 q bs now4
          = Inr [Printf ''64 bytes from %s: time=%v\<newline>'' [ArgS (IP (dst q)), ArgV (Since now4 t4)]]"
      by (simp add: handleRecv_v4_def)
  next
    assume "parse4 protoNum_v4 bs = Inr m4 \<and> Type m4 = ipv4_ICMPTypeEchoReply
          \<and> Body m4 = Echo (ident q) (seqnum q) d4 \<and> bytesToTime d4 = Inr t4 \<and> msg_first j"
    then show "\<exists>q' rest out.
           pingLoop_for_v4 parse4 q (fst (recvEchoReply_v4 parse4 (ReadOk bs cm4 # reads4))) (j # ins4)
           = (q', Printf ''64 bytes from %s: time=%v\<newline>''
                    [ArgS (IP (dst q)), ArgV (Since (recv_now j) t4)]
                  # TimerStop # Sleep (interval q) # rest, out)"
      using sp4 [of parse4 bs m4 q d4 t4 j cm4 reads4 ins4] by blast
  qed
qed

text \<open>The amended C8 on a matching reply read with TTL 57, 50 ms after the time in its
  payload.\<close>

theorem C8_success_line_witness:
  "handleEchoReply (ex_session 10) (ex_reply 10) 57 ex_t1
        = Inr [Printf ''64 bytes from %s: icmp_seq=%d ttl=%d time=%dms\<newline>''
                 [ArgS ''192.0.2.1'', ArgD 10, ArgD 57, ArgD 50]]
   \<and> sprintf ''64 bytes from %s: icmp_seq=%d ttl=%d time=%dms\<newline>''
           [ArgS ''192.0.2.1'', ArgD 10, ArgD 57, ArgD 50]
        = Some ''64 bytes from 192.0.2.1: icmp_seq=10 ttl=57 time=50ms\<newline>''
   \<and> (\<exists>p' rest out.
         pingLoop_for (ex_session 10)
           (fst (recvEchoReply (ex_session 10) (ex_parse (ex_reply 10)) [ReadOk [] (Some 57)]))
           [ex_pass True None]
         = (p', Printf ''64 bytes from %s: icmp_seq=%d ttl=%d time=%dms\<newline>''
                  [ArgS ''192.0.2.1'', ArgD 10, ArgD 57, ArgD 50]
                # TimerStop # Sleep 1000000000 # rest, out))
   \<and> handleRecv_v4 (ex_parse (ex_reply 10)) (ex_session_v4 10) [] ex_t1
        = Inr [Printf ''64 bytes from %s: time=%v\<newline>'' [ArgS ''192.0.2.1'', ArgV 50000000]]
   \<and> (\<exists>q' rest out.
         pingLoop_for_v4 (ex_parse (ex_reply 10)) (ex_session_v4 10)
           (fst (recvEchoReply_v4 (ex_parse (ex_reply 10)) [ReadOk [] (Some 57)]))
           [ex_pass True None]
         = (q', Printf ''64 bytes from %s: time=%v\<newline>'' [ArgS ''192.0.2.1'', ArgV 50000000]
                # TimerStop # Sleep 1300000000 # rest, out))"
proof -
  have rtt: "Since ex_t1 ex_t0 = 50000000" "Milliseconds 50000000 = 50"
    by (simp_all add: Milliseconds_def Since_def Sub_def int64_quo_def)
  have sh: "showInt 10 = ''10''" "showInt 57 = ''57''" "showInt 50 = ''50''"
    by code_simp+
  have fw: "fst (recvEchoReply (ex_session 10) (ex_parse (ex_reply 10)) [ReadOk [] (Some 57)])
        = [\<lparr>msg = Some (ex_reply 10), rttl = 57, err = None\<rparr>]"
    "fst (recvEchoReply_v4 (ex_parse (ex_reply 10)) [ReadOk [] (Some 57)])
        = [\<lparr>bytes_v4 = [], err_v4 = None\<rparr>]"
    by (simp_all add: ipv4_ICMPTypeEchoReply_def)
  show ?thesis
    using fw C8_success_line [where m = "ex_reply 10" and p = "ex_session 10"
        and d = "timeToBytes ex_t0" and t = ex_t0 and h = 57 and now = ex_t1
        and parse = "ex_parse (ex_reply 10)" and b = "[]" and i = "ex_pass True None"
        and cm = "Some 57" and reads = "[]" and ins = "[]"
        and ?parse4.0 = "ex_parse (ex_reply 10)" and bs = "[]" and ?m4.0 = "ex_reply 10"
        and q = "ex_session_v4 10" and ?d4.0 = "timeToBytes ex_t0" and ?t4.0 = ex_t0
        and ?now4.0 = ex_t1 and j = "ex_pass True None" and ?cm4.0 = "Some 57"
        and ?reads4.0 = "[]" and ?ins4.0 = "[]"]
      decode_example
    by (simp add: rtt sh)
qed

text \<open>
  C8, as stated, fails in \<^verbatim>\<open>main.go\<close>: the line printed for a matching reply has
  neither \<^verbatim>\<open>icmp_seq\<close> nor \<^verbatim>\<open>ttl\<close>.
\<close>

theorem C8_counterexample:
  "handleRecv_v4 (ex_parse (ex_reply 10)) (ex_session_v4 10) [] ex_t1
     = Inr [Printf ''64 bytes from %s: time=%v\<newline>'' [ArgS ''192.0.2.1'', ArgV 50000000]]
   \<and> handleRecv_v4 (ex_parse (ex_reply 10)) (ex_session_v4 10) [] ex_t1
     \<noteq> Inr [Printf ''64 bytes from %s: icmp_seq=%d ttl=%d time=%dms\<newline>''
              [ArgS ''192.0.2.1'', ArgD 10, ArgD 57, ArgD 50]]"
  by (simp add: handleRecv_v4_def decode_example Since_def Sub_def)

text \<open>
  C10. In both programs the error of the first \<^verbatim>\<open>sendEcho\<close>, before the loop, is
  not looked at: a run whose first write fails is the run whose first write succeeds.
  With nothing received, the loop starts its timer, the timer case reports the
  destination unreachable, and only the failure of the send inside the loop ends it.
\<close>

theorem C10_first_send_error_discarded:
  "pingLoop p parse reads now0 werr0 ins = pingLoop p parse reads now0 None ins
   \<and> pingLoop_v4 q parse reads now0 werr0 ins = pingLoop_v4 q parse reads now0 None ins
   \<and> (\<exists>m0 m1. pingLoop p parse [] now0 (Some e0)
          [\<lparr>msg_first = first, recv_now = t1, send_now = t2, write_err = Some e1\<rparr>]
        = (p\<lparr>seqnum := seqnum p + 2\<rparr>,
           [Go_recvEchoReply, WriteTo m0 (dst p), NewTimer (rttLimit p),
            Printf ''unreachable: %s.\<newline>'' [ArgS (IP (dst p))],
            TimerReset (rttLimit p), WriteTo m1 (dst p),
            Printf ''Send error: %s.\<newline>'' [ArgS (''Send echo error: '' @ e1)],
            TimerStop],
           Returned None))
   \<and> (\<exists>m0 m1. pingLoop_v4 q parse [] now0 (Some e0)
          [\<lparr>msg_first = first, recv_now = t1, send_now = t2, write_err = Some e1\<rparr>]
        = (q\<lparr>seqnum := seqnum q + 1\<rparr>,
           [Go_recvEchoReply, WriteTo m0 (dst q), NewTimer (rttLimit q),
            Printf ''unreachable: %s.\<newline>'' [ArgS (IP (dst q))],
            TimerReset (rttLimit q), WriteTo m1 (dst q),
            TimerStop],
           Returned None))"
proof (intro conjI)
  show "pingLoop p parse reads now0 werr0 ins = pingLoop p parse reads now0 None ins"
    by (simp add: pingLoop_def sendEcho_eq)
  show "pingLoop_v4 q parse reads now0 werr0 ins = pingLoop_v4 q parse reads now0 None ins"
    by (simp add: pingLoop_v4_def sendEcho_v4_eq)
  show "\<exists>m0 m1. pingLoop p parse [] now0 (Some e0)
          [\<lparr>msg_first = first, recv_now = t1, send_now = t2, write_err = Some e1\<rparr>]
        = (p\<lparr>seqnum := seqnum p + 2\<rparr>,
           [Go_recvEchoReply, WriteTo m0 (dst p), NewTimer (rttLimit p),
            Printf ''unreachable: %s.\<newline>'' [ArgS (IP (dst p))],
            TimerReset (rttLimit p), WriteTo m1 (dst p),
            Printf ''Send error: %s.\<newline>'' [ArgS (''Send echo error: '' @ e1)],
            TimerStop],
           Returned None)"
    by (simp add: pingLoop_def sendEcho_eq select_arm_def select_body_def)
  show "\<exists>m0 m1. pingLoop_v4 q parse [] now0 (Some e0)
          [\<lparr>msg_first = first, recv_now = t1, send_now = t2, write_err = Some e1\<rparr>]
        = (q\<lparr>seqnum := seqnum q + 1\<rparr>,
           [Go_recvEchoReply, WriteTo m0 (dst q), NewTimer (rttLimit q),
            Printf ''unreachable: %s.\<newline>'' [ArgS (IP (dst q))],
            TimerReset (rttLimit q), WriteTo m1 (dst q),
            TimerStop],
           Returned None)"
    by (simp add: pingLoop_v4_def sendEcho_v4_eq select_arm_def select_body_v4_def)
qed

end
